theory Spec2Isabelle
  imports Complex_Main "HOL-Library.AList"
begin

section \<open>JavaScript values\<close>

text \<open>
  The wrapper works on plain JavaScript data. A value is a primitive or a reference to an
  object in the heap; an object is a list of own properties in insertion order, with a
  flag telling an array (whose property names are its indices) from a plain object.
\<close>

type_synonym addr = nat

datatype jsval = Undefined | Null | NaN | Str string | Num int | Bool bool | Ref addr

datatype object = Object (isArray: bool) (props: "(string \<times> jsval) list")

type_synonym heap = "object list"

text \<open>Truthiness, as tested by \<^verbatim>\<open>if (x)\<close> and \<^verbatim>\<open>!x\<close>.\<close>

fun truthy :: "jsval \<Rightarrow> bool" where
  "truthy Undefined = False"
| "truthy Null = False"
| "truthy NaN = False"
| "truthy (Str s) = (s \<noteq> [])"
| "truthy (Num n) = (n \<noteq> 0)"
| "truthy (Bool b) = b"
| "truthy (Ref a) = True"

text \<open>Decimal notation of a number, as string concatenation produces it.\<close>

function digits :: "nat \<Rightarrow> string" where
  "digits n = (if n < 10 then [char_of (48 + n)] else digits (n div 10) @ [char_of (48 + n mod 10)])"
  by pat_completeness auto
termination
  by (relation "measure id") auto

declare digits.simps [simp del]

definition decimal :: "int \<Rightarrow> string" where
  "decimal i = (if i < 0 then CHR ''-'' # digits (nat (- i)) else digits (nat i))"

text \<open>
  The string a value turns into when it is concatenated to a string or used as the key of
  a store. A plain object without a \<^verbatim>\<open>toString\<close> of its own gives
  \<^verbatim>\<open>[object Object]\<close>; names and identifiers are strings in every caller of the
  wrapper.
\<close>

fun jsString :: "jsval \<Rightarrow> string" where
  "jsString Undefined = ''undefined''"
| "jsString Null = ''null''"
| "jsString NaN = ''NaN''"
| "jsString (Str s) = s"
| "jsString (Num n) = decimal n"
| "jsString (Bool b) = (if b then ''true'' else ''false'')"
| "jsString (Ref a) = ''[object Object]''"

section \<open>Batch splitting\<close>

text \<open>
  \<^verbatim>\<open>_.chunk(array, size)\<close> of lodash: consecutive slices of \<open>size\<close> elements, the
  last one with what is left; a size below one counts as one.
\<close>

function chunkFrom :: "nat \<Rightarrow> 'a list \<Rightarrow> 'a list list" where
  "chunkFrom sz array =
     (if array = [] then []
      else take (max sz 1) array # chunkFrom sz (drop (max sz 1) array))"
  by pat_completeness auto
termination
  by (relation "measure (\<lambda>(sz, array). length array)") auto

declare chunkFrom.simps [simp del]

definition chunk :: "'a list \<Rightarrow> nat \<Rightarrow> 'a list list" where
  "chunk array sz = chunkFrom sz array"

text \<open>
  \<^verbatim>\<open>splitBatches\<close> of the association scripts: the batches, and the total the progress
  bar is created with. The script that creates associations uses batches of 100, the one
  that deletes them batches of 50.
\<close>

definition splitBatches :: "'a list \<Rightarrow> 'a list list \<times> nat" where
  "splitBatches lineItems = (let batches = chunk lineItems 100 in (batches, length batches + 1))"

definition splitBatches_delete :: "'a list \<Rightarrow> 'a list list \<times> nat" where
  "splitBatches_delete lineItems =
     (let batches = chunk lineItems 50 in (batches, length batches + 1))"

section \<open>Queries\<close>

datatype statement = Statement (query: string)

type_synonym conditions = "string \<rightharpoonup> jsval"

text \<open>\<^verbatim>\<open>conditions[field]\<close>: a property that is not there reads as undefined.\<close>

definition field :: "conditions \<Rightarrow> string \<Rightarrow> jsval" where
  "field conditions f = (case conditions f of None \<Rightarrow> Undefined | Some v \<Rightarrow> v)"

definition quote :: string where
  "quote = [CHR 0x27]"

text \<open>\<^verbatim>\<open>query.replace(/ and $/, '')\<close>: removes the five characters at the very end.\<close>

definition removeFinalAnd :: "string \<Rightarrow> string" where
  "removeFinalAnd q =
     (if 5 \<le> length q \<and> drop (length q - 5) q = '' and '' then take (length q - 5) q else q)"

definition addition :: "conditions \<Rightarrow> string \<Rightarrow> string" where
  "addition conditions f =
     (if truthy (field conditions f)
      then f @ '' like '' @ quote @ jsString (field conditions f) @ quote @ '' and ''
      else [])"

definition makeQuery :: "conditions \<Rightarrow> string list \<Rightarrow> statement" where
  "makeQuery conditions fields =
     Statement (removeFinalAnd
       (foldl (\<lambda>condition f. condition @ addition conditions f) ''Where '' fields))"

definition LINE_ITEM_FIELDS :: "string list" where
  "LINE_ITEM_FIELDS = [''costType'', ''creationDateTime'', ''deliveryRateType'', ''endDateTime'',
     ''externalId'', ''id'', ''isMissingCreatives'', ''isSetTopBoxEnabled'',
     ''lastModifiedDateTime'', ''lineItemType'', ''name'', ''orderId'', ''startDateTime'',
     ''status'', ''targeting'', ''unitsBought'']"

definition CRITERIA_VALUE_FIELDS :: "string list" where
  "CRITERIA_VALUE_FIELDS = [''id'', ''customTargetingKeyId'', ''name'', ''displayName'',
     ''matchType'']"

definition CRITERIA_KEY_FIELDS :: "string list" where
  "CRITERIA_KEY_FIELDS = [''id'', ''name'', ''displayName'', ''type'']"

definition AD_UNIT_FIELDS :: "string list" where
  "AD_UNIT_FIELDS = [''adUnitCode'', ''id'', ''name'', ''parentId'', ''status'',
     ''lastModifiedDateTime'']"

definition ORDER_FIELDS :: "string list" where
  "ORDER_FIELDS = [''advertiserId'', ''endDateTime'', ''id'', ''name'', ''salespersonId'',
     ''startDateTime'', ''status'', ''traffickerId'', ''lastModifiedDateTime'']"

definition LABEL_FIELDS :: "string list" where
  "LABEL_FIELDS = [''id'', ''type'', ''name'', ''description'', ''isActive'']"




section \<open>Responses of the remote platform\<close>

datatype error =
    Error string
  | NotFoundError
  | ReadError
  | WriteError
  | RemoteError string
  | TypeError
  | RangeError

text \<open>
  An entity in a response carries the identifier the platform assigned, a string. A
  response without matches has no \<^verbatim>\<open>results\<close> property.
\<close>

datatype entity = Entity (ident: "string option")

datatype response = Response (results: "entity list option")

definition extractResults :: "response \<Rightarrow> error + entity list" where
  "extractResults response =
     (case results response of
        None \<Rightarrow> Inl (Error ''Expected to find results, but there were none'')
      | Some rs \<Rightarrow> Inr rs)"

text \<open>
  \<^verbatim>\<open>!results[0] || !results[0].id\<close>: no first element, or a first element whose id
  is missing or the empty string.
\<close>

definition extractFirstId :: "entity list \<Rightarrow> error + string" where
  "extractFirstId rs =
     (case rs of
        [] \<Rightarrow> Inl (Error ''expected to find an id, but didnt'')
      | r # _ \<Rightarrow>
          (case ident r of
             None \<Rightarrow> Inl (Error ''expected to find an id, but didnt'')
           | Some i \<Rightarrow>
               if i = [] then Inl (Error ''expected to find an id, but didnt'') else Inr i))"

section \<open>The world the wrapper runs in\<close>

text \<open>
  The five stores are LevelUP databases, one per kind of entity. A store is its entries
  (keys and values are strings) and whether writing to it works at the moment. The world
  also holds the calls made to the remote platform so far, the lines written to the
  console, and the object heap.
\<close>

datatype storeName = criteriaKeyStore | criteriaValueStore | adUnitStore | orderStore | labelStore

record store =
  entries :: "string \<rightharpoonup> string"
  writable :: bool

record world =
  stores :: "storeName \<Rightarrow> store"
  calls :: "(string \<times> string \<times> statement) list"
  console :: "string list"
  objects :: heap

text \<open>
  What stands behind \<^verbatim>\<open>this.dfpUser\<close> and the libraries: the answer of the remote
  platform to a call, \<^verbatim>\<open>moment\<close> reading a date (year, month from zero, day, hour,
  minute; nothing for an invalid date), and the depth of the call stack.
\<close>

record platform =
  respond :: "string \<Rightarrow> string \<Rightarrow> statement \<Rightarrow> error + response"
  moment :: "jsval \<Rightarrow> (int \<times> int \<times> int \<times> int \<times> int) option"
  stackLimit :: nat

subsection \<open>Promises\<close>

text \<open>
  The wrapper starts its lookups one after the other (its concurrency bound is one), so a
  promise is a function from the world to its outcome, rejected (\<open>Inl\<close>) or fulfilled
  (\<open>Inr\<close>), and the world it leaves.
\<close>

type_synonym 'a promise = "world \<Rightarrow> (error + 'a) \<times> world"

definition resolved :: "'a \<Rightarrow> 'a promise" where
  "resolved x w = (Inr x, w)"

definition rejected :: "error \<Rightarrow> 'a promise" where
  "rejected e w = (Inl e, w)"

definition settle :: "error + 'a \<Rightarrow> 'a promise" where
  "settle r w = (r, w)"

definition thenP :: "'a promise \<Rightarrow> ('a \<Rightarrow> 'b promise) \<Rightarrow> 'b promise" where
  "thenP p f w = (case p w of (Inl e, w') \<Rightarrow> (Inl e, w') | (Inr x, w') \<Rightarrow> f x w')"

definition catchP :: "'a promise \<Rightarrow> (error \<Rightarrow> 'a promise) \<Rightarrow> 'a promise" where
  "catchP p h w = (case p w of (Inl e, w') \<Rightarrow> h e w' | (Inr x, w') \<Rightarrow> (Inr x, w'))"

text \<open>\<^verbatim>\<open>.tap\<close> keeps the value, but a handler that fails rejects the chain.\<close>

definition tapP :: "'a promise \<Rightarrow> ('a \<Rightarrow> 'b promise) \<Rightarrow> 'a promise" where
  "tapP p f w =
     (case p w of
        (Inl e, w') \<Rightarrow> (Inl e, w')
      | (Inr x, w') \<Rightarrow>
          (case f x w' of (Inl e, w'') \<Rightarrow> (Inl e, w'') | (Inr _, w'') \<Rightarrow> (Inr x, w'')))"

text \<open>\<^verbatim>\<open>.map\<close> with a concurrency of one: the items in turn, until one fails.\<close>

fun mapP :: "('a \<Rightarrow> 'b promise) \<Rightarrow> 'a list \<Rightarrow> 'b list promise" where
  "mapP f [] w = (Inr [], w)"
| "mapP f (x # xs) w =
     (case f x w of
        (Inl e, w') \<Rightarrow> (Inl e, w')
      | (Inr y, w') \<Rightarrow>
          (case mapP f xs w' of
             (Inl e, w'') \<Rightarrow> (Inl e, w'')
           | (Inr ys, w'') \<Rightarrow> (Inr (y # ys), w'')))"

definition consoleLog :: "string \<Rightarrow> unit promise" where
  "consoleLog line w = (Inr (), w\<lparr>console := console w @ [line]\<rparr>)"

definition executeAPIFunction ::
  "platform \<Rightarrow> string \<Rightarrow> string \<Rightarrow> statement \<Rightarrow> response promise" where
  "executeAPIFunction p service method q w =
     (respond p service method q, w\<lparr>calls := calls w @ [(service, method, q)]\<rparr>)"

subsection \<open>Stores\<close>

text \<open>
  The key handed to a store is a value or, in \<^verbatim>\<open>getAdUnit\<close>, a statement object.
  LevelUP refuses a key that is null, undefined or the empty string, and turns any other
  key into a string; reading a key that has no entry fails.
\<close>

datatype storeKey = Key jsval | StatementKey statement

fun keyString :: "storeKey \<Rightarrow> string" where
  "keyString (Key v) = jsString v"
| "keyString (StatementKey q) = ''[object Object]''"

fun usableKey :: "storeKey \<Rightarrow> bool" where
  "usableKey (Key v) = (v \<noteq> Undefined \<and> v \<noteq> Null \<and> jsString v \<noteq> [])"
| "usableKey (StatementKey q) = True"

definition getAsync :: "storeName \<Rightarrow> storeKey \<Rightarrow> string promise" where
  "getAsync st k w =
     (if \<not> usableKey k then (Inl ReadError, w)
      else case entries (stores w st) (keyString k) of
             None \<Rightarrow> (Inl NotFoundError, w)
           | Some v \<Rightarrow> (Inr v, w))"

definition putAsync :: "storeName \<Rightarrow> storeKey \<Rightarrow> string \<Rightarrow> unit promise" where
  "putAsync st k v w =
     (if \<not> usableKey k \<or> \<not> writable (stores w st) then (Inl WriteError, w)
      else (Inr (),
            w\<lparr>stores := (stores w)
                (st := (stores w st)\<lparr>entries := (entries (stores w st))(keyString k \<mapsto> v)\<rparr>)\<rparr>))"

section \<open>Resolution of names\<close>

definition getCriteriaKey :: "platform \<Rightarrow> conditions \<Rightarrow> string promise" where
  "getCriteriaKey p conditions =
     thenP (thenP
       (executeAPIFunction p ''CustomTargetingService'' ''getCustomTargetingKeysByStatement''
          (makeQuery conditions CRITERIA_KEY_FIELDS))
       (\<lambda>response. settle (extractResults response)))
       (\<lambda>rs. settle (extractFirstId rs))"

definition lookupCriteriaKey :: "platform \<Rightarrow> jsval \<Rightarrow> string promise" where
  "lookupCriteriaKey p name =
     catchP (getAsync criteriaKeyStore (Key name))
       (\<lambda>_. tapP (getCriteriaKey p [''name'' \<mapsto> name])
          (\<lambda>i. catchP (putAsync criteriaKeyStore (Key name) i)
             (\<lambda>e. thenP (consoleLog ''locally storing criteria key failed'')
                (\<lambda>_. rejected e))))"

text \<open>The second definition of \<^verbatim>\<open>getCriteriaValue\<close>, which replaces the alias.\<close>

definition getCriteriaValue :: "platform \<Rightarrow> conditions \<Rightarrow> string promise" where
  "getCriteriaValue p conditions =
     (let nQ = ''Where customTargetingKeyId = '' @ quote
               @ jsString (field conditions ''customTargetingKeyId'') @ quote
               @ '' and name like '' @ quote @ jsString (field conditions ''name'') @ quote;
          newQuery = Statement nQ
      in thenP (consoleLog ''query 2: '')
           (\<lambda>_. thenP (thenP
              (executeAPIFunction p ''CustomTargetingService''
                 ''getCustomTargetingValuesByStatement'' newQuery)
              (\<lambda>response. settle (extractResults response)))
              (\<lambda>rs. settle (extractFirstId rs))))"

text \<open>The statement \<^verbatim>\<open>getCriteriaValue\<close> sends for a conditions object.\<close>

definition valueQuery :: "conditions \<Rightarrow> statement" where
  "valueQuery conditions =
     Statement (''Where customTargetingKeyId = '' @ quote
       @ jsString (field conditions ''customTargetingKeyId'') @ quote
       @ '' and name like '' @ quote @ jsString (field conditions ''name'') @ quote)"

definition lookupCriteriaValues :: "platform \<Rightarrow> jsval \<Rightarrow> string \<Rightarrow> string list promise" where
  "lookupCriteriaValues p v keyId =
     (let lookupKey = keyId @ '':'' @ jsString v
      in thenP
           (catchP (getAsync criteriaValueStore (Key (Str lookupKey)))
              (\<lambda>_. catchP
                 (tapP (getCriteriaValue p
                          [''name'' \<mapsto> v, ''customTargetingKeyId'' \<mapsto> Str keyId])
                    (\<lambda>valueId. putAsync criteriaValueStore (Key (Str lookupKey)) valueId))
                 (\<lambda>e. thenP (consoleLog ''locally storing criteria value failed'')
                    (\<lambda>_. rejected e))))
           (\<lambda>i. resolved [i]))"

definition lookupKeyInPair :: "platform \<Rightarrow> string \<times> jsval \<Rightarrow> (string \<times> jsval) promise" where
  "lookupKeyInPair p pair =
     (let key = fst pair; v = snd pair
      in thenP (lookupCriteriaKey p (Str key)) (\<lambda>keyId. resolved (keyId, v)))"

definition lookupValueInPair ::
  "platform \<Rightarrow> string \<times> jsval \<Rightarrow> (string \<times> string list) promise" where
  "lookupValueInPair p pair =
     (let keyId = fst pair; v = snd pair
      in thenP (lookupCriteriaValues p v keyId) (\<lambda>ids. resolved (keyId, ids)))"

record criterion =
  keyId :: string
  valueIds :: "string list"

definition convertPairToObject :: "string \<times> string list \<Rightarrow> criterion" where
  "convertPairToObject pair = \<lparr>keyId = fst pair, valueIds = snd pair\<rparr>"

text \<open>
  \<^verbatim>\<open>_.pairs(object)\<close> of lodash: the own properties of an object as pairs, the
  characters of a string with their indices, nothing for any other value.
\<close>

fun indexed :: "nat \<Rightarrow> string \<Rightarrow> (string \<times> jsval) list" where
  "indexed i [] = []"
| "indexed i (c # cs) = (digits i, Str [c]) # indexed (Suc i) cs"

fun pairs :: "heap \<Rightarrow> jsval \<Rightarrow> (string \<times> jsval) list" where
  "pairs h (Ref a) = (if a < length h then props (h ! a) else [])"
| "pairs h (Str s) = indexed 0 s"
| "pairs h v = []"

definition getCriteria :: "platform \<Rightarrow> jsval \<Rightarrow> criterion list promise" where
  "getCriteria p criteria w =
     thenP (thenP (mapP (lookupKeyInPair p) (pairs (objects w) criteria))
              (mapP (lookupValueInPair p)))
       (\<lambda>ps. resolved (map convertPairToObject ps)) w"

definition getAdUnit :: "platform \<Rightarrow> conditions \<Rightarrow> string promise" where
  "getAdUnit p conditions =
     (let q = makeQuery conditions AD_UNIT_FIELDS
      in catchP (getAsync adUnitStore (StatementKey q))
           (\<lambda>_. tapP
              (thenP (thenP
                 (executeAPIFunction p ''InventoryService'' ''getAdUnitsByStatement'' q)
                 (\<lambda>response. settle (extractResults response)))
                 (\<lambda>rs. settle (extractFirstId rs)))
              (\<lambda>i. putAsync adUnitStore (Key (field conditions ''name'')) i)))"

definition getOrder :: "platform \<Rightarrow> conditions \<Rightarrow> string promise" where
  "getOrder p conditions =
     (let q = makeQuery conditions ORDER_FIELDS
      in catchP (getAsync orderStore (Key (field conditions ''name'')))
           (\<lambda>_. catchP
              (tapP
                 (thenP (thenP
                    (executeAPIFunction p ''OrderService'' ''getOrdersByStatement'' q)
                    (\<lambda>response. settle (extractResults response)))
                    (\<lambda>rs. settle (extractFirstId rs)))
                 (\<lambda>i. putAsync orderStore (Key (field conditions ''name'')) i))
              (\<lambda>e. thenP (consoleLog ''locally storing order failed'')
                 (\<lambda>_. rejected e))))"

definition getLabel :: "platform \<Rightarrow> conditions \<Rightarrow> string promise" where
  "getLabel p conditions =
     thenP (thenP
       (executeAPIFunction p ''LabelService'' ''getLabelsByStatement''
          (makeQuery conditions LABEL_FIELDS))
       (\<lambda>response. settle (extractResults response)))
       (\<lambda>rs. settle (extractFirstId rs))"

definition lookupLabel :: "platform \<Rightarrow> jsval \<Rightarrow> string promise" where
  "lookupLabel p name =
     catchP (getAsync labelStore (Key name))
       (\<lambda>_. tapP (getLabel p [''name'' \<mapsto> name])
          (\<lambda>i. catchP (putAsync labelStore (Key name) i)
             (\<lambda>e. thenP (consoleLog ''locally storing label failed'')
                (\<lambda>_. rejected e))))"

section \<open>Objects in the heap\<close>

text \<open>
  Reading a property of undefined or null throws; a primitive has no properties of its
  own. The file is in strict mode, where assigning a property to a primitive throws too.
  An address outside the heap does not occur in a running program; following one fails.
\<close>

definition getProp :: "heap \<Rightarrow> jsval \<Rightarrow> string \<Rightarrow> error + jsval" where
  "getProp h v k =
     (case v of
        Undefined \<Rightarrow> Inl TypeError
      | Null \<Rightarrow> Inl TypeError
      | Ref a \<Rightarrow>
          if a < length h
          then Inr (case map_of (props (h ! a)) k of None \<Rightarrow> Undefined | Some x \<Rightarrow> x)
          else Inl TypeError
      | _ \<Rightarrow> Inr Undefined)"

definition setProp :: "heap \<Rightarrow> jsval \<Rightarrow> string \<Rightarrow> jsval \<Rightarrow> error + heap" where
  "setProp h v k x =
     (case v of
        Ref a \<Rightarrow>
          if a < length h
          then Inr (h[a := Object (isArray (h ! a)) (AList.update k x (props (h ! a)))])
          else Inl TypeError
      | _ \<Rightarrow> Inl TypeError)"

definition deleteProp :: "heap \<Rightarrow> jsval \<Rightarrow> string \<Rightarrow> error + heap" where
  "deleteProp h v k =
     (case v of
        Undefined \<Rightarrow> Inl TypeError
      | Null \<Rightarrow> Inl TypeError
      | Ref a \<Rightarrow>
          if a < length h
          then Inr (h[a := Object (isArray (h ! a)) (AList.delete k (props (h ! a)))])
          else Inl TypeError
      | _ \<Rightarrow> Inr h)"

text \<open>\<^verbatim>\<open>v.push(x)\<close>: only an array has the method.\<close>

definition pushElem :: "heap \<Rightarrow> jsval \<Rightarrow> jsval \<Rightarrow> error + heap" where
  "pushElem h v x =
     (case v of
        Ref a \<Rightarrow>
          if a < length h \<and> isArray (h ! a)
          then Inr (h[a := Object True (props (h ! a) @ [(digits (length (props (h ! a))), x)])])
          else Inl TypeError
      | _ \<Rightarrow> Inl TypeError)"

definition readProp :: "jsval \<Rightarrow> string \<Rightarrow> jsval promise" where
  "readProp v k w = (getProp (objects w) v k, w)"

definition writeProp :: "jsval \<Rightarrow> string \<Rightarrow> jsval \<Rightarrow> unit promise" where
  "writeProp v k x w =
     (case setProp (objects w) v k x of
        Inl e \<Rightarrow> (Inl e, w)
      | Inr h \<Rightarrow> (Inr (), w\<lparr>objects := h\<rparr>))"

definition removeProp :: "jsval \<Rightarrow> string \<Rightarrow> unit promise" where
  "removeProp v k w =
     (case deleteProp (objects w) v k of
        Inl e \<Rightarrow> (Inl e, w)
      | Inr h \<Rightarrow> (Inr (), w\<lparr>objects := h\<rparr>))"

definition push :: "jsval \<Rightarrow> jsval \<Rightarrow> unit promise" where
  "push v x w =
     (case pushElem (objects w) v x of
        Inl e \<Rightarrow> (Inl e, w)
      | Inr h \<Rightarrow> (Inr (), w\<lparr>objects := h\<rparr>))"

text \<open>An object or array literal: a new object at the next free address.\<close>

definition newObject :: "(string \<times> jsval) list \<Rightarrow> jsval promise" where
  "newObject ps w = (Inr (Ref (length (objects w))), w\<lparr>objects := objects w @ [Object False ps]\<rparr>)"

definition newArray :: "jsval list \<Rightarrow> jsval promise" where
  "newArray vs w =
     (Inr (Ref (length (objects w))),
      w\<lparr>objects := objects w @ [Object True (zip (map digits [0..<length vs]) vs)]\<rparr>)"

subsection \<open>Deep cloning\<close>

text \<open>
  \<^verbatim>\<open>_.cloneDeep\<close> of lodash. A primitive is its own clone. An object gets a new, empty
  object of the same kind, which is recorded on a stack against the original, so that an
  object met again (shared or on a cycle) is cloned once; then every property is cloned in
  turn and assigned to the new object. The recursion is as deep as the data, and fails
  when the call stack is used up.
\<close>

fun baseClone ::
    "nat \<Rightarrow> jsval \<Rightarrow> (addr \<times> addr) list \<Rightarrow> heap \<Rightarrow> (error + jsval) \<times> (addr \<times> addr) list \<times> heap"
  and cloneProps ::
    "nat \<Rightarrow> addr \<Rightarrow> (string \<times> jsval) list \<Rightarrow> (addr \<times> addr) list \<Rightarrow> heap
       \<Rightarrow> (error + unit) \<times> (addr \<times> addr) list \<times> heap"
  where
  "baseClone 0 v stack h = (Inl RangeError, stack, h)"
| "baseClone (Suc n) v stack h =
     (case v of
        Ref a \<Rightarrow>
          (case map_of stack a of
             Some b \<Rightarrow> (Inr (Ref b), stack, h)
           | None \<Rightarrow>
               if a < length h
               then
                 (let b = length h
                  in case cloneProps n b (props (h ! a)) ((a, b) # stack)
                            (h @ [Object (isArray (h ! a)) []]) of
                       (Inl e, stack', h') \<Rightarrow> (Inl e, stack', h')
                     | (Inr _, stack', h') \<Rightarrow> (Inr (Ref b), stack', h'))
               else (Inl TypeError, stack, h))
      | _ \<Rightarrow> (Inr v, stack, h))"
| "cloneProps n b [] stack h = (Inr (), stack, h)"
| "cloneProps n b (kv # ps) stack h =
     (case baseClone n (snd kv) stack h of
        (Inl e, stack', h') \<Rightarrow> (Inl e, stack', h')
      | (Inr x, stack', h') \<Rightarrow>
          cloneProps n b ps stack'
            (h'[b := Object (isArray (h' ! b)) (AList.update (fst kv) x (props (h' ! b)))]))"

definition cloneDeep :: "platform \<Rightarrow> jsval \<Rightarrow> jsval promise" where
  "cloneDeep p v w =
     (case baseClone (stackLimit p) v [] (objects w) of
        (r, stack, h) \<Rightarrow> (r, w\<lparr>objects := h\<rparr>))"

section \<open>Preparing a line item\<close>

definition replaceOrderName :: "platform \<Rightarrow> jsval \<Rightarrow> jsval promise" where
  "replaceOrderName p lineItem0 =
     thenP (cloneDeep p lineItem0) (\<lambda>lineItem.
     thenP (readProp lineItem ''orderName'') (\<lambda>name.
     thenP (getOrder p [''name'' \<mapsto> name]) (\<lambda>orderId.
     thenP (writeProp lineItem ''orderId'' (Str orderId)) (\<lambda>_.
     thenP (removeProp lineItem ''orderName'') (\<lambda>_.
     resolved lineItem)))))"

definition replaceAdUnitName :: "platform \<Rightarrow> jsval \<Rightarrow> jsval promise" where
  "replaceAdUnitName p lineItem0 =
     thenP (cloneDeep p lineItem0) (\<lambda>lineItem.
     thenP (readProp lineItem ''adUnitName'') (\<lambda>name.
     thenP (getAdUnit p [''name'' \<mapsto> name]) (\<lambda>adUnitId.
     thenP (readProp lineItem ''targeting'') (\<lambda>targeting.
     thenP (readProp targeting ''inventoryTargeting'') (\<lambda>inventoryTargeting.
     thenP (newObject [(''adUnitId'', Str adUnitId), (''includeDescendants'', Bool True)])
       (\<lambda>adUnit.
     thenP (newArray [adUnit]) (\<lambda>targetedAdUnits.
     thenP (writeProp inventoryTargeting ''targetedAdUnits'' targetedAdUnits) (\<lambda>_.
     thenP (removeProp lineItem ''adUnitName'') (\<lambda>_.
     resolved lineItem)))))))))"

text \<open>The body of the \<^verbatim>\<open>_.forEach\<close> in \<^verbatim>\<open>addCriteria\<close>, for one resolved pair.\<close>

definition pushCriterion :: "jsval \<Rightarrow> criterion \<Rightarrow> unit promise" where
  "pushCriterion lineItem condition =
     thenP (readProp lineItem ''targeting'') (\<lambda>targeting.
     thenP (readProp targeting ''customTargeting'') (\<lambda>customTargeting.
     thenP (readProp customTargeting ''children'') (\<lambda>sets.
     thenP (readProp sets ''0'') (\<lambda>first.
     thenP (readProp first ''children'') (\<lambda>children.
     thenP (newObject [(''xsi:type'', Str ''CustomCriteria'')]) (\<lambda>attributes.
     thenP (newArray (map Str (valueIds condition))) (\<lambda>ids.
     thenP (newObject [(''attributes'', attributes), (''keyId'', Str (keyId condition)),
                       (''valueIds'', ids), (''operator'', Str ''IS'')]) (\<lambda>criteria.
     push children criteria))))))))"

fun forEach :: "'a list \<Rightarrow> ('a \<Rightarrow> unit promise) \<Rightarrow> unit promise" where
  "forEach [] f w = (Inr (), w)"
| "forEach (x # xs) f w =
     (case f x w of (Inl e, w') \<Rightarrow> (Inl e, w') | (Inr _, w') \<Rightarrow> forEach xs f w')"

definition addCriteria :: "platform \<Rightarrow> jsval \<Rightarrow> jsval promise" where
  "addCriteria p lineItem0 =
     thenP (cloneDeep p lineItem0) (\<lambda>lineItem.
     thenP (readProp lineItem ''customCriteriaKVPairs'') (\<lambda>kvPairs.
     thenP (getCriteria p kvPairs) (\<lambda>criteria.
     thenP (forEach criteria (pushCriterion lineItem)) (\<lambda>_.
     thenP (removeProp lineItem ''customCriteriaKVPairs'') (\<lambda>_.
     resolved lineItem)))))"

text \<open>The year, month, day, hour and minute of a moment; all of them NaN for an invalid date.\<close>

definition replaceStartDate :: "platform \<Rightarrow> jsval \<Rightarrow> jsval promise" where
  "replaceStartDate p lineItem0 =
     thenP (cloneDeep p lineItem0) (\<lambda>lineItem.
     thenP (readProp lineItem ''date'') (\<lambda>d.
     (let date = moment p d;
          year = (case date of None \<Rightarrow> NaN | Some (y, m, dd, hh, mm) \<Rightarrow> Num y);
          month = (case date of None \<Rightarrow> NaN | Some (y, m, dd, hh, mm) \<Rightarrow> Num (m + 1));
          day = (case date of None \<Rightarrow> NaN | Some (y, m, dd, hh, mm) \<Rightarrow> Num dd);
          hour = (case date of None \<Rightarrow> NaN | Some (y, m, dd, hh, mm) \<Rightarrow> Num hh);
          minute = (case date of None \<Rightarrow> NaN | Some (y, m, dd, hh, mm) \<Rightarrow> Num mm)
      in
     thenP (newObject [(''year'', Str (jsString year)), (''month'', Str (jsString month)),
                       (''day'', Str (jsString day))]) (\<lambda>dateObject.
     thenP (newObject [(''date'', dateObject), (''hour'', hour), (''minute'', minute),
                       (''second'', Str ''0''), (''timeZoneID'', Str ''Europe/Oslo'')])
       (\<lambda>startDateTime.
     thenP (writeProp lineItem ''startDateTime'' startDateTime) (\<lambda>_.
     thenP (removeProp lineItem ''date'') (\<lambda>_.
     resolved lineItem)))))))"

definition prepareLineItem :: "platform \<Rightarrow> jsval \<Rightarrow> jsval promise" where
  "prepareLineItem p lineItem =
     thenP (consoleLog ''prepareLineItem'') (\<lambda>_.
     thenP (thenP (thenP (thenP (resolved lineItem)
       (replaceStartDate p))
       (replaceOrderName p))
       (replaceAdUnitName p))
       (addCriteria p))"

section \<open>What a call leaves of the heap\<close>

text \<open>
  A heap is closed when every reference in it leads to one of its objects. The snapshot of
  a value is the data reachable from it, down to a given depth; two values are deep-equal
  when their snapshots agree at every depth.
\<close>

fun inside :: "nat \<Rightarrow> jsval \<Rightarrow> bool" where
  "inside n (Ref a) = (a < n)"
| "inside n v = True"

definition closedHeap :: "heap \<Rightarrow> bool" where
  "closedHeap h = (\<forall>obj \<in> set h. \<forall>kv \<in> set (props obj). inside (length h) (snd kv))"

datatype tree = Leaf jsval | Node bool "(string \<times> tree) list" | Deeper

fun snapshot :: "nat \<Rightarrow> heap \<Rightarrow> jsval \<Rightarrow> tree" where
  "snapshot 0 h v = (case v of Ref a \<Rightarrow> Deeper | _ \<Rightarrow> Leaf v)"
| "snapshot (Suc n) h v =
     (case v of
        Ref a \<Rightarrow>
          if a < length h
          then Node (isArray (h ! a)) (map (\<lambda>kv. (fst kv, snapshot n h (snd kv))) (props (h ! a)))
          else Deeper
      | _ \<Rightarrow> Leaf v)"

text \<open>
  A value is fresh with respect to the first \<open>n\<close> objects when it is a primitive or refers
  to a later object. The objects from \<open>n\<close> on are separate when all their properties are
  fresh: nothing reachable from them is one of the first \<open>n\<close> objects. A heap keeps an
  earlier heap when the earlier objects are all there, unchanged, and the later ones are
  separate from them.
\<close>

fun fresh :: "nat \<Rightarrow> jsval \<Rightarrow> bool" where
  "fresh n (Ref a) = (n \<le> a)"
| "fresh n v = True"

definition separate :: "nat \<Rightarrow> heap \<Rightarrow> bool" where
  "separate n h = (\<forall>a. n \<le> a \<and> a < length h \<longrightarrow> (\<forall>kv \<in> set (props (h ! a)). fresh n (snd kv)))"

definition kept :: "heap \<Rightarrow> heap \<Rightarrow> bool" where
  "kept H h = (length H \<le> length h \<and> take (length H) h = H \<and> separate (length H) h)"

text \<open>
  A promise is safe for a heap \<open>H\<close> when it keeps \<open>H\<close> whatever its outcome, and its
  value, when it has one, satisfies \<open>Q\<close>.
\<close>

definition safe :: "heap \<Rightarrow> 'a promise \<Rightarrow> ('a \<Rightarrow> bool) \<Rightarrow> bool" where
  "safe H f Q =
     (\<forall>w r w'. kept H (objects w) \<longrightarrow> f w = (r, w') \<longrightarrow>
        kept H (objects w') \<and> (\<forall>x. r = Inr x \<longrightarrow> Q x))"

text \<open>A promise is quiet when it leaves the heap as it is.\<close>

definition quiet :: "'a promise \<Rightarrow> bool" where
  "quiet f = (\<forall>w r w'. f w = (r, w') \<longrightarrow> objects w' = objects w)"

text \<open>
  While an object is cloned, the stack pairs originals with clones. The clones are fresh
  when the stack only leads to objects from \<open>n\<close> on; a heap has grown from another when
  it is at least as long, agrees with it on the first \<open>n\<close> objects, and its later objects
  are separate.
\<close>

definition freshStack :: "nat \<Rightarrow> (addr \<times> addr) list \<Rightarrow> bool" where
  "freshStack n stack = (\<forall>ab \<in> set stack. n \<le> snd ab)"

definition grown :: "nat \<Rightarrow> heap \<Rightarrow> (addr \<times> addr) list \<Rightarrow> heap \<Rightarrow> bool" where
  "grown n h stack' h' =
     (length h \<le> length h' \<and> take n h' = take n h \<and> freshStack n stack' \<and> separate n h')"




section \<open>A platform and a world to run the wrapper in\<close>

text \<open>
  The scenarios of the specification: the key \<^verbatim>\<open>hb_pb\<close> has the identifier
  \<^verbatim>\<open>K1\<close>, its value \<^verbatim>\<open>0.50\<close> the identifier \<^verbatim>\<open>V1\<close>, the ad unit
  \<^verbatim>\<open>TV2no\<close> the identifier \<^verbatim>\<open>21661848134\<close>. The platform has one order,
  \<^verbatim>\<open>yo_first_order\<close>, which a filter on its name and the empty filter both find,
  and one label, \<^verbatim>\<open>sponsored\<close>. Every other query finds nothing.
\<close>

definition found :: "string \<Rightarrow> error + response" where
  "found i = Inr (Response (Some [Entity (Some i)]))"

definition mockRespond :: "string \<Rightarrow> string \<Rightarrow> statement \<Rightarrow> error + response" where
  "mockRespond service method q =
     (if method = ''getCustomTargetingKeysByStatement''
         \<and> query q = ''Where name like '' @ quote @ ''hb_pb'' @ quote
      then found ''K1''
      else if method = ''getCustomTargetingValuesByStatement''
         \<and> query q = ''Where customTargetingKeyId = '' @ quote @ ''K1'' @ quote
                      @ '' and name like '' @ quote @ ''0.50'' @ quote
      then found ''V1''
      else if method = ''getAdUnitsByStatement''
         \<and> query q = ''Where name like '' @ quote @ ''TV2no'' @ quote
      then found ''21661848134''
      else if method = ''getOrdersByStatement''
         \<and> (query q = ''Where name like '' @ quote @ ''yo_first_order'' @ quote
              \<or> query q = ''Where '')
      then found ''2172772969''
      else if method = ''getLabelsByStatement''
         \<and> query q = ''Where name like '' @ quote @ ''sponsored'' @ quote
      then found ''L1''
      else Inr (Response None))"

definition mockPlatform :: platform where
  "mockPlatform =
     \<lparr>respond = mockRespond, moment = (\<lambda>d. Some (2017, 9, 26, 15, 0)), stackLimit = 100\<rparr>"

definition emptyStore :: store where
  "emptyStore = \<lparr>entries = Map.empty, writable = True\<rparr>"

definition brokenStore :: store where
  "brokenStore = \<lparr>entries = Map.empty, writable = False\<rparr>"

definition newWorld :: "heap \<Rightarrow> world" where
  "newWorld h = \<lparr>stores = (\<lambda>st. emptyStore), calls = [], console = [], objects = h\<rparr>"

definition brokenWorld :: "heap \<Rightarrow> world" where
  "brokenWorld h = \<lparr>stores = (\<lambda>st. brokenStore), calls = [], console = [], objects = h\<rparr>"

text \<open>
  A line item as \<^verbatim>\<open>formatLineItem\<close> builds it, cut down to the properties the
  preparation reads or writes, with and without its order name. The line item is the last
  object of the heap.
\<close>

definition lineItemHeap :: "(string \<times> jsval) list \<Rightarrow> heap" where
  "lineItemHeap named =
     [Object False [(''adUnitId'', Str ''21661848134''), (''includeDescendants'', Bool True)],
      Object True [(''0'', Ref 0)],
      Object False [(''targetedAdUnits'', Ref 1)],
      Object False [(''xsi:type'', Str ''CustomCriteriaSet'')],
      Object True [],
      Object False [(''attributes'', Ref 3), (''logicalOperator'', Str ''AND''),
                    (''children'', Ref 4)],
      Object True [(''0'', Ref 5)],
      Object False [(''logicalOperator'', Str ''OR''), (''children'', Ref 6)],
      Object False [(''inventoryTargeting'', Ref 2), (''customTargeting'', Ref 7)],
      Object False [(''hb_pb'', Str ''0.50'')],
      Object False ([(''name'', Str ''PREBID_0.50''), (''targeting'', Ref 8),
                     (''customCriteriaKVPairs'', Ref 9),
                     (''date'', Str ''10-26-2017, 15:00:00'')] @ named)]"

definition fullLineItem :: heap where
  "fullLineItem =
     lineItemHeap [(''orderName'', Str ''yo_first_order''), (''adUnitName'', Str ''TV2no'')]"

definition namelessLineItem :: heap where
  "namelessLineItem = lineItemHeap [(''adUnitName'', Str ''TV2no'')]"

section \<open>Batches\<close>

lemma div_step:
  assumes "0 < n" "0 < (m::nat)"
  shows "(m + n - 1) div n = Suc ((m - 1) div n)"
proof -
  have "m + n - 1 = (m - 1) + n" using assms by arith
  then have "(m + n - 1) div n = ((m - 1) + n) div n" by (rule arg_cong)
  also have "\<dots> = Suc ((m - 1) div n)"
    using div_add_self2[of n "m - 1"] assms(1) by linarith
  finally show ?thesis .
qed

lemma div_small:
  assumes "0 < (m::nat)" "m \<le> n"
  shows "(m + n - 1) div n = 1"
proof -
  have "(m - 1) div n = 0" using assms by simp
  then show ?thesis using div_step[of n m] assms by simp
qed

lemma ceiling_div:
  assumes n: "0 < n"
  shows "nat \<lceil>real m / real n\<rceil> = (m + n - 1) div n"
proof (cases "m = 0")
  case True
  then show ?thesis using n by simp
next
  case False
  then have m: "0 < m" by simp
  define q where "q = (m - 1) div n"
  define r where "r = (m - 1) mod n"
  have r: "r < n" using n by (simp add: r_def)
  have "m - 1 = q * n + r" by (simp add: q_def r_def)
  then have meq: "m = q * n + (r + 1)" using m by simp
  have "real m = real q * real n + real (r + 1)" by (subst meq) simp
  then have split: "real m / real n = real q + real (r + 1) / real n"
    using n by (simp add: field_simps)
  have "0 < real (r + 1) / real n" using n by simp
  moreover have "real (r + 1) / real n \<le> 1" using r n by simp
  ultimately have "\<lceil>real m / real n\<rceil> = int q + 1"
    unfolding split by (intro ceiling_unique) simp_all
  then have "nat \<lceil>real m / real n\<rceil> = Suc q" by simp
  then show ?thesis using div_step[OF n m] by (simp add: q_def)
qed

lemma chunkFrom_Nil: "chunkFrom n [] = []"
  by (subst chunkFrom.simps) simp

lemma chunkFrom_Cons:
  "0 < n \<Longrightarrow> xs \<noteq> [] \<Longrightarrow> chunkFrom n xs = take n xs # chunkFrom n (drop n xs)"
proof -
  assume a: "0 < n" "xs \<noteq> []"
  then have "max n 1 = n" by simp
  then show ?thesis using a by (subst chunkFrom.simps) simp
qed

lemma chunkFrom_empty_iff: "chunkFrom n xs = [] \<longleftrightarrow> xs = []"
  by (subst chunkFrom.simps) simp

lemma concat_chunkFrom: "concat (chunkFrom n xs) = xs"
  by (induction n xs rule: chunkFrom.induct) (subst chunkFrom.simps, simp)

lemma length_chunkFrom: "0 < n \<Longrightarrow> length (chunkFrom n xs) = (length xs + n - 1) div n"
proof (induction n xs rule: chunkFrom.induct)
  case (1 sz array)
  show ?case
  proof (cases "array = []")
    case True
    then show ?thesis using 1(2) by (simp add: chunkFrom_Nil)
  next
    case False
    have m: "max sz 1 = sz" using 1(2) by simp
    have ih: "length (chunkFrom sz (drop sz array)) = (length (drop sz array) + sz - 1) div sz"
      using 1(1)[OF False] 1(2) m by simp
    have pos: "0 < length array" using False by simp
    show ?thesis
    proof (cases "length array \<le> sz")
      case True
      then have "drop sz array = []" by simp
      then show ?thesis using div_small[OF pos True] chunkFrom_Cons[OF 1(2) False]
        by (simp add: chunkFrom_Nil)
    next
      case more: False
      then have p2: "0 < length array - sz" by simp
      have "(length array + sz - 1) div sz = Suc ((length array - 1) div sz)"
        using div_step[OF 1(2) pos] .
      moreover have "(length array - sz + sz - 1) div sz = Suc ((length array - sz - 1) div sz)"
        using div_step[OF 1(2) p2] .
      moreover have "length array - sz + sz - 1 = length array - 1" using more by simp
      ultimately show ?thesis using ih chunkFrom_Cons[OF 1(2) False] by simp
    qed
  qed
qed

lemma full_chunkFrom:
  "0 < n \<Longrightarrow> Suc i < length (chunkFrom n xs) \<Longrightarrow> length (chunkFrom n xs ! i) = n"
proof (induction n xs arbitrary: i rule: chunkFrom.induct)
  case (1 sz array)
  have m: "max sz 1 = sz" using 1(2) by simp
  have ne: "array \<noteq> []" using 1(3) by (auto simp: chunkFrom_Nil)
  have unfold: "chunkFrom sz array = take sz array # chunkFrom sz (drop sz array)"
    using chunkFrom_Cons[OF 1(2) ne] .
  show ?case
  proof (cases i)
    case 0
    then have "chunkFrom sz (drop sz array) \<noteq> []" using 1(3) unfold by auto
    then have "drop sz array \<noteq> []" by (simp add: chunkFrom_empty_iff)
    then have "sz < length array" by simp
    then show ?thesis using 0 unfold by simp
  next
    case (Suc j)
    then have j: "Suc j < length (chunkFrom sz (drop sz array))" using 1(3) unfold by simp
    have "length (chunkFrom sz (drop sz array) ! j) = sz"
      using 1(1)[OF ne _ ] 1(2) j m by simp
    then show ?thesis using Suc unfold by simp
  qed
qed

lemma last_chunkFrom:
  "0 < n \<Longrightarrow> xs \<noteq> [] \<Longrightarrow>
     0 < length (last (chunkFrom n xs)) \<and> length (last (chunkFrom n xs)) \<le> n"
proof (induction n xs rule: chunkFrom.induct)
  case (1 sz array)
  have m: "max sz 1 = sz" using 1(2) by simp
  have unfold: "chunkFrom sz array = take sz array # chunkFrom sz (drop sz array)"
    using chunkFrom_Cons[OF 1(2) 1(3)] .
  show ?case
  proof (cases "drop sz array = []")
    case True
    then show ?thesis using unfold 1(2,3) by (simp add: chunkFrom_Nil)
  next
    case False
    then have "chunkFrom sz (drop sz array) \<noteq> []" by (simp add: chunkFrom_empty_iff)
    then show ?thesis using unfold 1(1)[OF 1(3)] 1(2) False m by simp
  qed
qed

lemma sizes_250:
  assumes "length xs = 250"
  shows "map length (chunkFrom 100 xs) = [100, 100, 50]"
proof -
  have a: "xs \<noteq> []" "drop 100 xs \<noteq> []" "drop 200 xs \<noteq> []" "drop 300 xs = []"
    using assms by auto
  have "chunkFrom 100 xs = [take 100 xs, take 100 (drop 100 xs), take 100 (drop 200 xs)]"
    using a by (simp add: chunkFrom_Cons chunkFrom_Nil)
  then show ?thesis using assms by simp
qed

text \<open>
  C5. For every list of items and every positive batch size \<open>n\<close>, the split yields
  \<open>\<lceil>length items / n\<rceil>\<close> batches, every batch but the last has exactly \<open>n\<close> items, the
  last one between one and \<open>n\<close>, and the batches concatenated in order are the items. The
  two scripts split with \<open>n = 100\<close> and \<open>n = 50\<close>; 250 items in batches of 100 give the
  sizes 100, 100, 50.
\<close>

theorem splitBatches_chunks:
  assumes "0 < n"
  shows "int (length (chunk items n)) = \<lceil>real (length items) / real n\<rceil>
       \<and> (\<forall>i. Suc i < length (chunk items n) \<longrightarrow> length (chunk items n ! i) = n)
       \<and> (items \<noteq> [] \<longrightarrow> 0 < length (last (chunk items n))
                         \<and> length (last (chunk items n)) \<le> n)
       \<and> concat (chunk items n) = items
       \<and> fst (splitBatches items) = chunk items 100
       \<and> fst (splitBatches_delete items) = chunk items 50
       \<and> (length items = 250 \<longrightarrow> map length (fst (splitBatches items)) = [100, 100, 50])"
proof -
  have "0 \<le> real (length items) / real n" by simp
  then have "- 1 < real (length items) / real n" by linarith
  then have "0 \<le> \<lceil>real (length items) / real n\<rceil>" by (simp only: zero_le_ceiling)
  then have "int (nat \<lceil>real (length items) / real n\<rceil>) = \<lceil>real (length items) / real n\<rceil>"
    by (rule int_nat_eq[THEN trans, OF if_P])
  moreover have "length (chunk items n) = nat \<lceil>real (length items) / real n\<rceil>"
    using length_chunkFrom[OF assms, of items] ceiling_div[OF assms, of "length items"]
    by (simp only: chunk_def)
  ultimately have "int (length (chunk items n)) = \<lceil>real (length items) / real n\<rceil>"
    by (simp only:)
  moreover have "\<forall>i. Suc i < length (chunk items n) \<longrightarrow> length (chunk items n ! i) = n"
    using full_chunkFrom[OF assms, of _ items] by (simp add: chunk_def)
  moreover have "items \<noteq> [] \<longrightarrow> 0 < length (last (chunk items n))
                         \<and> length (last (chunk items n)) \<le> n"
    using last_chunkFrom[OF assms, of items] by (simp add: chunk_def)
  moreover have "concat (chunk items n) = items"
    by (simp add: chunk_def concat_chunkFrom)
  moreover have "fst (splitBatches items) = chunk items 100"
    by (simp add: splitBatches_def Let_def)
  moreover have "fst (splitBatches_delete items) = chunk items 50"
    by (simp add: splitBatches_delete_def Let_def)
  moreover have "length items = 250 \<longrightarrow> map length (fst (splitBatches items)) = [100, 100, 50]"
    using sizes_250[of items] by (simp add: splitBatches_def Let_def chunk_def)
  ultimately show ?thesis by blast
qed

theorem splitBatches_chunks_witness:
  "int (length (chunk (replicate 250 (0::nat)) 100)) = 3
   \<and> length (chunk (replicate 250 (0::nat)) 100 ! 1) = 100
   \<and> length (last (chunk (replicate 250 (0::nat)) 100)) \<le> 100
   \<and> concat (chunk (replicate 250 (0::nat)) 100) = replicate 250 0
   \<and> map length (fst (splitBatches (replicate 250 (0::nat)))) = [100, 100, 50]"
proof -
  have pos: "0 < (100::nat)" by simp
  have len: "length (replicate 250 (0::nat)) = 250" by simp
  have ne: "replicate 250 (0::nat) \<noteq> []" by simp
  have c: "\<lceil>real (250::nat) / real (100::nat)\<rceil> = 3" by (simp add: ceiling_eq_iff)
  note t = splitBatches_chunks[OF pos, of "replicate 250 (0::nat)"]
  have n: "int (length (chunk (replicate 250 (0::nat)) 100)) = 3"
    using t c by simp
  then have "Suc 1 < length (chunk (replicate 250 (0::nat)) 100)" by simp
  then have full: "length (chunk (replicate 250 (0::nat)) 100 ! 1) = 100"
    using t by blast
  have l: "length (last (chunk (replicate 250 (0::nat)) 100)) \<le> 100"
    using t ne by blast
  have cc: "concat (chunk (replicate 250 (0::nat)) 100) = replicate 250 0"
    using t by blast
  have sizes: "map length (fst (splitBatches (replicate 250 (0::nat)))) = [100, 100, 50]"
    using t len by blast
  show ?thesis using n full l cc sizes by blast
qed

section \<open>The query builder\<close>









section \<open>Promise chains and stores\<close>

lemma catchP_Inr:
  "catchP p h w = (Inr x, w1) \<Longrightarrow>
     p w = (Inr x, w1) \<or> (\<exists>e w0. p w = (Inl e, w0) \<and> h e w0 = (Inr x, w1))"
  by (auto simp: catchP_def split: prod.splits sum.splits)

lemma tapP_Inr:
  "tapP p f w = (Inr x, w1) \<Longrightarrow> \<exists>w0 y. p w = (Inr x, w0) \<and> f x w0 = (Inr y, w1)"
  by (auto simp: tapP_def split: prod.splits sum.splits)

lemma thenP_Inr:
  "thenP p f w = (Inr y, w1) \<Longrightarrow> \<exists>x w0. p w = (Inr x, w0) \<and> f x w0 = (Inr y, w1)"
  by (auto simp: thenP_def split: prod.splits sum.splits)

lemma catchP_log_Inr:
  "catchP q (\<lambda>e. thenP (consoleLog m) (\<lambda>_. rejected e)) w = (Inr y, w1) \<Longrightarrow>
     q w = (Inr y, w1)"
  by (auto simp: catchP_def thenP_def consoleLog_def rejected_def split: prod.splits sum.splits)

lemma catchP_hit: "p w = (Inr x, w') \<Longrightarrow> catchP p h w = (Inr x, w')"
  by (simp add: catchP_def)


text \<open>The call to the platform followed by the two extraction steps.\<close>

lemma firstId_chain:
  "thenP (thenP (executeAPIFunction p service method q)
       (\<lambda>response. settle (extractResults response)))
       (\<lambda>rs. settle (extractFirstId rs)) w =
     ((case respond p service method q of
         Inl e \<Rightarrow> Inl e
       | Inr response \<Rightarrow>
           (case extractResults response of Inl e \<Rightarrow> Inl e | Inr rs \<Rightarrow> extractFirstId rs)),
      w\<lparr>calls := calls w @ [(service, method, q)]\<rparr>)"
  by (simp add: thenP_def executeAPIFunction_def settle_def split: sum.splits)

lemma getCriteriaKey_eq:
  "getCriteriaKey p conditions w =
     ((case respond p ''CustomTargetingService'' ''getCustomTargetingKeysByStatement''
              (makeQuery conditions CRITERIA_KEY_FIELDS) of
         Inl e \<Rightarrow> Inl e
       | Inr response \<Rightarrow>
           (case extractResults response of Inl e \<Rightarrow> Inl e | Inr rs \<Rightarrow> extractFirstId rs)),
      w\<lparr>calls := calls w @ [(''CustomTargetingService'', ''getCustomTargetingKeysByStatement'',
                                 makeQuery conditions CRITERIA_KEY_FIELDS)]\<rparr>)"
  unfolding getCriteriaKey_def by (rule firstId_chain)

lemma getAsync_world: "getAsync st k w = (r, w') \<Longrightarrow> w' = w"
  by (auto simp: getAsync_def split: if_splits option.splits)

lemma putAsync_then_get:
  "putAsync st k v w = (Inr u, w') \<Longrightarrow> getAsync st k w' = (Inr v, w')"
  by (auto simp: putAsync_def getAsync_def split: if_splits)

lemma putAsync_Inl: "putAsync st k v w = (Inl e, w') \<Longrightarrow> e = WriteError \<and> w' = w"
  by (auto simp: putAsync_def split: if_splits)

lemmas run = catchP_def tapP_def thenP_def settle_def resolved_def rejected_def consoleLog_def
  executeAPIFunction_def getAsync_def putAsync_def extractResults_def extractFirstId_def
  makeQuery_def addition_def field_def quote_def removeFinalAnd_def
  mockPlatform_def mockRespond_def found_def newWorld_def emptyStore_def

section \<open>Extraction of the identifier\<close>




section \<open>Resolving a name twice\<close>

lemma lookupCriteriaKey_again:
  assumes "lookupCriteriaKey p name w = (Inr i, w1)"
  shows "lookupCriteriaKey p' name w1 = (Inr i, w1)"
proof -
  have "getAsync criteriaKeyStore (Key name) w1 = (Inr i, w1)"
    using catchP_Inr[OF assms[unfolded lookupCriteriaKey_def]]
  proof
    assume h: "getAsync criteriaKeyStore (Key name) w = (Inr i, w1)"
    then show ?thesis using getAsync_world[OF h] by simp
  next
    assume "\<exists>e w0. getAsync criteriaKeyStore (Key name) w = (Inl e, w0) \<and>
           tapP (getCriteriaKey p [''name'' \<mapsto> name])
            (\<lambda>i. catchP (putAsync criteriaKeyStore (Key name) i)
                  (\<lambda>e. thenP (consoleLog ''locally storing criteria key failed'')
                        (\<lambda>_. rejected e))) w0 = (Inr i, w1)"
    then obtain e w0 where
      "tapP (getCriteriaKey p [''name'' \<mapsto> name])
            (\<lambda>i. catchP (putAsync criteriaKeyStore (Key name) i)
                  (\<lambda>e. thenP (consoleLog ''locally storing criteria key failed'')
                        (\<lambda>_. rejected e))) w0 = (Inr i, w1)" by blast
    from tapP_Inr[OF this] obtain w2 y where
      "catchP (putAsync criteriaKeyStore (Key name) i)
                  (\<lambda>e. thenP (consoleLog ''locally storing criteria key failed'')
                        (\<lambda>_. rejected e)) w2 = (Inr y, w1)" by blast
    from catchP_log_Inr[OF this]
    have "putAsync criteriaKeyStore (Key name) i w2 = (Inr y, w1)" .
    then show ?thesis by (rule putAsync_then_get)
  qed
  then show ?thesis unfolding lookupCriteriaKey_def by (rule catchP_hit)
qed

lemma getOrder_again:
  assumes "getOrder p conditions w = (Inr i, w1)"
  shows "getOrder p' conditions w1 = (Inr i, w1)"
proof -
  let ?k = "Key (field conditions ''name'')"
  have "getAsync orderStore ?k w1 = (Inr i, w1)"
    using catchP_Inr[OF assms[unfolded getOrder_def Let_def]]
  proof
    assume h: "getAsync orderStore ?k w = (Inr i, w1)"
    then show ?thesis using getAsync_world[OF h] by simp
  next
    assume "\<exists>e w0. getAsync orderStore ?k w = (Inl e, w0) \<and>
           catchP (tapP (thenP (thenP
                    (executeAPIFunction p ''OrderService'' ''getOrdersByStatement''
                       (makeQuery conditions ORDER_FIELDS))
                    (\<lambda>response. settle (extractResults response)))
                    (\<lambda>rs. settle (extractFirstId rs)))
                 (\<lambda>i. putAsync orderStore ?k i))
              (\<lambda>e. thenP (consoleLog ''locally storing order failed'')
                 (\<lambda>_. rejected e)) w0 = (Inr i, w1)"
    then obtain e w0 where
      "catchP (tapP (thenP (thenP
                    (executeAPIFunction p ''OrderService'' ''getOrdersByStatement''
                       (makeQuery conditions ORDER_FIELDS))
                    (\<lambda>response. settle (extractResults response)))
                    (\<lambda>rs. settle (extractFirstId rs)))
                 (\<lambda>i. putAsync orderStore ?k i))
              (\<lambda>e. thenP (consoleLog ''locally storing order failed'')
                 (\<lambda>_. rejected e)) w0 = (Inr i, w1)" by blast
    from catchP_log_Inr[OF this] have
      "tapP (thenP (thenP
                    (executeAPIFunction p ''OrderService'' ''getOrdersByStatement''
                       (makeQuery conditions ORDER_FIELDS))
                    (\<lambda>response. settle (extractResults response)))
                    (\<lambda>rs. settle (extractFirstId rs)))
                 (\<lambda>i. putAsync orderStore ?k i) w0 = (Inr i, w1)" .
    from tapP_Inr[OF this] obtain w2 y where
      "putAsync orderStore ?k i w2 = (Inr y, w1)" by blast
    then show ?thesis by (rule putAsync_then_get)
  qed
  then show ?thesis unfolding getOrder_def Let_def by (rule catchP_hit)
qed

text \<open>
  C1. For every criteria-key name and every order name: when a resolution has succeeded
  (so that the name is in the store of its kind, found there or written by the
  back-fill), a second resolution of the same name returns the same identifier and leaves
  the world as it is, the list of remote calls included: it is served by the store, and
  does not depend on the platform.
\<close>

theorem resolve_again:
  "(lookupCriteriaKey p name w = (Inr i, wk) \<longrightarrow>
      lookupCriteriaKey p' name wk = (Inr i, wk)
      \<and> calls (snd (lookupCriteriaKey p' name wk)) = calls wk)
   \<and> (getOrder p conditions w = (Inr j, wo) \<longrightarrow>
      getOrder p' conditions wo = (Inr j, wo)
      \<and> calls (snd (getOrder p' conditions wo)) = calls wo)"
  using lookupCriteriaKey_again[of p name w i wk p'] getOrder_again[of p conditions w j wo p']
  by simp

theorem resolve_again_witness:
  "fst (lookupCriteriaKey mockPlatform (Str ''hb_pb'') (newWorld [])) = Inr ''K1''
   \<and> length (calls (snd (lookupCriteriaKey mockPlatform (Str ''hb_pb'') (newWorld [])))) = 1
   \<and> fst (lookupCriteriaKey mockPlatform (Str ''hb_pb'')
        (snd (lookupCriteriaKey mockPlatform (Str ''hb_pb'') (newWorld [])))) = Inr ''K1''
   \<and> length (calls (snd (lookupCriteriaKey mockPlatform (Str ''hb_pb'')
        (snd (lookupCriteriaKey mockPlatform (Str ''hb_pb'') (newWorld [])))))) = 1
   \<and> fst (getOrder mockPlatform [''name'' \<mapsto> Str ''yo_first_order''] (newWorld []))
        = Inr ''2172772969''
   \<and> length (calls (snd (getOrder mockPlatform [''name'' \<mapsto> Str ''yo_first_order'']
        (newWorld [])))) = 1
   \<and> fst (getOrder mockPlatform [''name'' \<mapsto> Str ''yo_first_order'']
        (snd (getOrder mockPlatform [''name'' \<mapsto> Str ''yo_first_order''] (newWorld []))))
        = Inr ''2172772969''
   \<and> length (calls (snd (getOrder mockPlatform [''name'' \<mapsto> Str ''yo_first_order'']
        (snd (getOrder mockPlatform [''name'' \<mapsto> Str ''yo_first_order''] (newWorld []))))))
        = 1"
proof -
  let ?k = "lookupCriteriaKey mockPlatform (Str ''hb_pb'') (newWorld [])"
  let ?o = "getOrder mockPlatform [''name'' \<mapsto> Str ''yo_first_order''] (newWorld [])"
  have k1: "fst ?k = Inr ''K1''"
    by (simp add: lookupCriteriaKey_def getCriteriaKey_def CRITERIA_KEY_FIELDS_def run)
  have k2: "length (calls (snd ?k)) = 1"
    by (simp add: lookupCriteriaKey_def getCriteriaKey_def CRITERIA_KEY_FIELDS_def run)
  have o1: "fst ?o = Inr ''2172772969''"
    by (simp add: getOrder_def ORDER_FIELDS_def run)
  have o2: "length (calls (snd ?o)) = 1"
    by (simp add: getOrder_def ORDER_FIELDS_def run)
  have k: "?k = (Inr ''K1'', snd ?k)" using k1 by (metis prod.collapse)
  have o: "?o = (Inr ''2172772969'', snd ?o)" using o1 by (metis prod.collapse)
  have k3: "lookupCriteriaKey mockPlatform (Str ''hb_pb'') (snd ?k) = (Inr ''K1'', snd ?k)"
    using resolve_again[of mockPlatform "Str ''hb_pb''" "newWorld []" "''K1''" "snd ?k"
        mockPlatform] k by blast
  have o3: "getOrder mockPlatform [''name'' \<mapsto> Str ''yo_first_order''] (snd ?o)
              = (Inr ''2172772969'', snd ?o)"
    using resolve_again[where p = mockPlatform and p' = mockPlatform
        and conditions = "[''name'' \<mapsto> Str ''yo_first_order'']" and w = "newWorld []"
        and j = "''2172772969''" and wo = "snd ?o"] o by blast
  show ?thesis using k1 k2 o1 o2 by (simp add: k3 o3)
qed

section \<open>A store that cannot be written\<close>

lemma getLabel_eq:
  "getLabel p conditions w =
     ((case respond p ''LabelService'' ''getLabelsByStatement''
              (makeQuery conditions LABEL_FIELDS) of
         Inl e \<Rightarrow> Inl e
       | Inr response \<Rightarrow>
           (case extractResults response of Inl e \<Rightarrow> Inl e | Inr rs \<Rightarrow> extractFirstId rs)),
      w\<lparr>calls := calls w @ [(''LabelService'', ''getLabelsByStatement'',
                                 makeQuery conditions LABEL_FIELDS)]\<rparr>)"
  unfolding getLabel_def by (rule firstId_chain)

lemma getCriteriaValue_eq:
  "getCriteriaValue p conditions w =
     ((case respond p ''CustomTargetingService'' ''getCustomTargetingValuesByStatement''
              (valueQuery conditions) of
         Inl e \<Rightarrow> Inl e
       | Inr response \<Rightarrow>
           (case extractResults response of Inl e \<Rightarrow> Inl e | Inr rs \<Rightarrow> extractFirstId rs)),
      w\<lparr>console := console w @ [''query 2: ''],
        calls := calls w @ [(''CustomTargetingService'', ''getCustomTargetingValuesByStatement'',
                                 valueQuery conditions)]\<rparr>)"
  by (simp add: getCriteriaValue_def Let_def valueQuery_def thenP_def consoleLog_def
      executeAPIFunction_def settle_def split: sum.splits)

lemma key_write_fails:
  assumes "entries (stores w criteriaKeyStore) (jsString name) = None"
    and "\<not> writable (stores w criteriaKeyStore)"
    and "fst (getCriteriaKey p [''name'' \<mapsto> name] w) = Inr i"
  shows "fst (lookupCriteriaKey p name w) = Inl WriteError
       \<and> console (snd (lookupCriteriaKey p name w))
           = console w @ [''locally storing criteria key failed'']"
  using assms
  by (simp add: lookupCriteriaKey_def getCriteriaKey_eq catchP_def tapP_def thenP_def
      getAsync_def putAsync_def consoleLog_def rejected_def split: sum.splits)

lemma label_write_fails:
  assumes "entries (stores w labelStore) (jsString name) = None"
    and "\<not> writable (stores w labelStore)"
    and "fst (getLabel p [''name'' \<mapsto> name] w) = Inr i"
  shows "fst (lookupLabel p name w) = Inl WriteError
       \<and> console (snd (lookupLabel p name w))
           = console w @ [''locally storing label failed'']"
  using assms
  by (simp add: lookupLabel_def getLabel_eq catchP_def tapP_def thenP_def
      getAsync_def putAsync_def consoleLog_def rejected_def split: sum.splits)

lemma value_write_fails:
  assumes "entries (stores w criteriaValueStore) (kid @ '':'' @ jsString v) = None"
    and "\<not> writable (stores w criteriaValueStore)"
    and "fst (getCriteriaValue p [''name'' \<mapsto> v, ''customTargetingKeyId'' \<mapsto> Str kid] w)
           = Inr i"
  shows "fst (lookupCriteriaValues p v kid w) = Inl WriteError
       \<and> console (snd (lookupCriteriaValues p v kid w))
           = console w @ [''query 2: '', ''locally storing criteria value failed'']"
  using assms
  by (simp add: lookupCriteriaValues_def getCriteriaValue_eq catchP_def tapP_def thenP_def
      getAsync_def putAsync_def consoleLog_def rejected_def Let_def split: sum.splits)

lemma order_write_fails:
  assumes "entries (stores w orderStore) (jsString (field conditions ''name'')) = None"
    and "\<not> writable (stores w orderStore)"
    and "respond p ''OrderService'' ''getOrdersByStatement'' (makeQuery conditions ORDER_FIELDS)
           = Inr response"
    and "extractResults response = Inr rs"
    and "extractFirstId rs = Inr i"
  shows "fst (getOrder p conditions w) = Inl WriteError
       \<and> console (snd (getOrder p conditions w))
           = console w @ [''locally storing order failed'']"
  using assms unfolding getOrder_def Let_def firstId_chain
  by (simp add: catchP_def tapP_def thenP_def
      getAsync_def putAsync_def consoleLog_def rejected_def split: sum.splits)

lemmas run_broken = run brokenWorld_def brokenStore_def

text \<open>
  C2, as the code has it. In each of \<^verbatim>\<open>lookupCriteriaKey\<close>,
  \<^verbatim>\<open>lookupCriteriaValues\<close>, \<^verbatim>\<open>getOrder\<close> and \<^verbatim>\<open>lookupLabel\<close>: when the
  name is not in the store, the remote lookup finds an identifier, and writing it to the
  store fails, the failure is written to the console and thrown again: the resolution
  is rejected with the write error, and the identifier is not returned.
\<close>

theorem write_failure_rejects:
  "(entries (stores w criteriaKeyStore) (jsString name) = None
      \<and> \<not> writable (stores w criteriaKeyStore)
      \<and> fst (getCriteriaKey p [''name'' \<mapsto> name] w) = Inr i
    \<longrightarrow> fst (lookupCriteriaKey p name w) = Inl WriteError
       \<and> console (snd (lookupCriteriaKey p name w))
           = console w @ [''locally storing criteria key failed''])
   \<and> (entries (stores w criteriaValueStore) (kid @ '':'' @ jsString v) = None
      \<and> \<not> writable (stores w criteriaValueStore)
      \<and> fst (getCriteriaValue p [''name'' \<mapsto> v, ''customTargetingKeyId'' \<mapsto> Str kid] w)
           = Inr i
    \<longrightarrow> fst (lookupCriteriaValues p v kid w) = Inl WriteError
       \<and> console (snd (lookupCriteriaValues p v kid w))
           = console w @ [''query 2: '', ''locally storing criteria value failed''])
   \<and> (entries (stores w orderStore) (jsString (field conditions ''name'')) = None
      \<and> \<not> writable (stores w orderStore)
      \<and> respond p ''OrderService'' ''getOrdersByStatement'' (makeQuery conditions ORDER_FIELDS)
           = Inr response
      \<and> extractResults response = Inr rs
      \<and> extractFirstId rs = Inr i
    \<longrightarrow> fst (getOrder p conditions w) = Inl WriteError
       \<and> console (snd (getOrder p conditions w))
           = console w @ [''locally storing order failed''])
   \<and> (entries (stores w labelStore) (jsString name) = None
      \<and> \<not> writable (stores w labelStore)
      \<and> fst (getLabel p [''name'' \<mapsto> name] w) = Inr i
    \<longrightarrow> fst (lookupLabel p name w) = Inl WriteError
       \<and> console (snd (lookupLabel p name w))
           = console w @ [''locally storing label failed''])"
  using key_write_fails[of w name p i] value_write_fails[of w kid v p i]
    order_write_fails[of w conditions p response rs i] label_write_fails[of w name p i]
  by blast

theorem write_failure_rejects_witness:
  "fst (getCriteriaKey mockPlatform [''name'' \<mapsto> Str ''hb_pb''] (brokenWorld [])) = Inr ''K1''
   \<and> fst (lookupCriteriaKey mockPlatform (Str ''hb_pb'') (brokenWorld [])) = Inl WriteError
   \<and> console (snd (lookupCriteriaKey mockPlatform (Str ''hb_pb'') (brokenWorld [])))
       = [''locally storing criteria key failed'']
   \<and> fst (getCriteriaValue mockPlatform
            [''name'' \<mapsto> Str ''0.50'', ''customTargetingKeyId'' \<mapsto> Str ''K1'']
            (brokenWorld [])) = Inr ''V1''
   \<and> fst (lookupCriteriaValues mockPlatform (Str ''0.50'') ''K1'' (brokenWorld []))
       = Inl WriteError
   \<and> fst (getOrder mockPlatform [''name'' \<mapsto> Str ''yo_first_order''] (brokenWorld []))
       = Inl WriteError
   \<and> console (snd (getOrder mockPlatform [''name'' \<mapsto> Str ''yo_first_order'']
        (brokenWorld []))) = [''locally storing order failed'']
   \<and> fst (getLabel mockPlatform [''name'' \<mapsto> Str ''sponsored''] (brokenWorld [])) = Inr ''L1''
   \<and> fst (lookupLabel mockPlatform (Str ''sponsored'') (brokenWorld [])) = Inl WriteError"
proof -
  let ?w = "brokenWorld []"
  have miss: "entries (stores ?w criteriaKeyStore) (jsString (Str ''hb_pb'')) = None"
    "entries (stores ?w criteriaValueStore) (''K1'' @ '':'' @ jsString (Str ''0.50'')) = None"
    "entries (stores ?w orderStore)
       (jsString (field [''name'' \<mapsto> Str ''yo_first_order''] ''name'')) = None"
    "entries (stores ?w labelStore) (jsString (Str ''sponsored'')) = None"
    by (simp_all add: brokenWorld_def brokenStore_def)
  have broken: "\<not> writable (stores ?w criteriaKeyStore)"
    "\<not> writable (stores ?w criteriaValueStore)"
    "\<not> writable (stores ?w orderStore)" "\<not> writable (stores ?w labelStore)"
    by (simp_all add: brokenWorld_def brokenStore_def)
  have k: "fst (getCriteriaKey mockPlatform [''name'' \<mapsto> Str ''hb_pb''] ?w) = Inr ''K1''"
    by (simp add: getCriteriaKey_def CRITERIA_KEY_FIELDS_def run_broken)
  have v: "fst (getCriteriaValue mockPlatform
            [''name'' \<mapsto> Str ''0.50'', ''customTargetingKeyId'' \<mapsto> Str ''K1''] ?w) = Inr ''V1''"
    by (simp add: getCriteriaValue_def Let_def run_broken)
  have l: "fst (getLabel mockPlatform [''name'' \<mapsto> Str ''sponsored''] ?w) = Inr ''L1''"
    by (simp add: getLabel_def LABEL_FIELDS_def run_broken)
  have o: "respond mockPlatform ''OrderService'' ''getOrdersByStatement''
             (makeQuery [''name'' \<mapsto> Str ''yo_first_order''] ORDER_FIELDS)
           = Inr (Response (Some [Entity (Some ''2172772969'')]))"
    "extractResults (Response (Some [Entity (Some ''2172772969'')]))
       = Inr [Entity (Some ''2172772969'')]"
    "extractFirstId [Entity (Some ''2172772969'')] = Inr ''2172772969''"
    by (simp_all add: ORDER_FIELDS_def run_broken)
  note t1 = write_failure_rejects[where w = ?w and name = "Str ''hb_pb''"
      and p = mockPlatform and i = "''K1''"]
  note t2 = write_failure_rejects[where w = ?w and kid = "''K1''" and v = "Str ''0.50''"
      and p = mockPlatform and i = "''V1''"]
  note t3 = write_failure_rejects[where w = ?w
      and conditions = "[''name'' \<mapsto> Str ''yo_first_order'']" and p = mockPlatform
      and response = "Response (Some [Entity (Some ''2172772969'')])"
      and rs = "[Entity (Some ''2172772969'')]" and i = "''2172772969''"]
  note t4 = write_failure_rejects[where w = ?w and name = "Str ''sponsored''"
      and p = mockPlatform and i = "''L1''"]
  have a: "fst (lookupCriteriaKey mockPlatform (Str ''hb_pb'') ?w) = Inl WriteError
       \<and> console (snd (lookupCriteriaKey mockPlatform (Str ''hb_pb'') ?w))
           = console ?w @ [''locally storing criteria key failed'']"
    using t1 miss(1) broken(1) k by blast
  have b: "fst (lookupCriteriaValues mockPlatform (Str ''0.50'') ''K1'' ?w) = Inl WriteError"
    using t2 miss(2) broken(2) v by blast
  have c: "fst (getOrder mockPlatform [''name'' \<mapsto> Str ''yo_first_order''] ?w) = Inl WriteError
       \<and> console (snd (getOrder mockPlatform [''name'' \<mapsto> Str ''yo_first_order''] ?w))
           = console ?w @ [''locally storing order failed'']"
    using t3 miss(3) broken(3) o by blast
  have d: "fst (lookupLabel mockPlatform (Str ''sponsored'') ?w) = Inl WriteError"
    using t4 miss(4) broken(4) l by blast
  have e: "console ?w = []" by (simp add: brokenWorld_def)
  show ?thesis using a b c d k v l by (simp add: e)
qed

theorem write_failure_counterexample:
  "fst (getCriteriaKey mockPlatform [''name'' \<mapsto> Str ''hb_pb''] (brokenWorld [])) = Inr ''K1''
   \<and> fst (lookupCriteriaKey mockPlatform (Str ''hb_pb'') (brokenWorld [])) = Inl WriteError
   \<and> fst (lookupCriteriaValues mockPlatform (Str ''0.50'') ''K1'' (brokenWorld []))
       = Inl WriteError
   \<and> fst (getOrder mockPlatform [''name'' \<mapsto> Str ''yo_first_order''] (brokenWorld []))
       = Inl WriteError
   \<and> fst (lookupLabel mockPlatform (Str ''sponsored'') (brokenWorld [])) = Inl WriteError"
  by (simp add: getOrder_def ORDER_FIELDS_def lookupCriteriaKey_def getCriteriaKey_def
      CRITERIA_KEY_FIELDS_def lookupCriteriaValues_def getCriteriaValue_def Let_def
      lookupLabel_def getLabel_def LABEL_FIELDS_def run_broken)

section \<open>The ad-unit store\<close>

text \<open>
  C3. \<^verbatim>\<open>getAdUnit\<close> reads the store under the statement object and writes it under
  the name. Resolving \<^verbatim>\<open>TV2no\<close> against a platform that answers
  \<^verbatim>\<open>21661848134\<close> stores the identifier under \<^verbatim>\<open>TV2no\<close>; the repeated
  resolution returns the same identifier but asks the platform again: two remote calls in
  total, not one.
\<close>

theorem getAdUnit_twice:
  "fst (getAdUnit mockPlatform [''name'' \<mapsto> Str ''TV2no''] (newWorld [])) = Inr ''21661848134''
   \<and> entries (stores (snd (getAdUnit mockPlatform [''name'' \<mapsto> Str ''TV2no''] (newWorld [])))
        adUnitStore) ''TV2no'' = Some ''21661848134''
   \<and> fst (getAdUnit mockPlatform [''name'' \<mapsto> Str ''TV2no'']
        (snd (getAdUnit mockPlatform [''name'' \<mapsto> Str ''TV2no''] (newWorld []))))
       = Inr ''21661848134''
   \<and> length (calls (snd (getAdUnit mockPlatform [''name'' \<mapsto> Str ''TV2no'']
        (snd (getAdUnit mockPlatform [''name'' \<mapsto> Str ''TV2no''] (newWorld [])))))) = 2"
  by (simp add: getAdUnit_def AD_UNIT_FIELDS_def Let_def run)

section \<open>Criteria\<close>

lemma lookupCriteriaValues_stored:
  assumes "lookupCriteriaValues p v kid w = (Inr ids, w')"
  shows "\<exists>i. ids = [i]
           \<and> entries (stores w' criteriaValueStore) (kid @ '':'' @ jsString v) = Some i"
proof -
  let ?k = "Key (Str (kid @ '':'' @ jsString v))"
  from thenP_Inr[OF assms[unfolded lookupCriteriaValues_def Let_def]]
  obtain i w0 where c: "catchP (getAsync criteriaValueStore ?k)
              (\<lambda>_. catchP
                 (tapP (getCriteriaValue p
                          [''name'' \<mapsto> v, ''customTargetingKeyId'' \<mapsto> Str kid])
                    (\<lambda>valueId. putAsync criteriaValueStore ?k valueId))
                 (\<lambda>e. thenP (consoleLog ''locally storing criteria value failed'')
                    (\<lambda>_. rejected e))) w = (Inr i, w0)"
    and r: "resolved [i] w0 = (Inr ids, w')" by blast
  from r have ids: "ids = [i]" "w' = w0" by (simp_all add: resolved_def)
  have "getAsync criteriaValueStore ?k w0 = (Inr i, w0)"
    using catchP_Inr[OF c]
  proof
    assume h: "getAsync criteriaValueStore ?k w = (Inr i, w0)"
    then show ?thesis using getAsync_world[OF h] by simp
  next
    assume "\<exists>(e::error) wa. getAsync criteriaValueStore ?k w = (Inl e, wa) \<and>
       catchP (tapP (getCriteriaValue p
                          [''name'' \<mapsto> v, ''customTargetingKeyId'' \<mapsto> Str kid])
                    (\<lambda>valueId. putAsync criteriaValueStore ?k valueId))
                 (\<lambda>e. thenP (consoleLog ''locally storing criteria value failed'')
                    (\<lambda>_. rejected e)) wa = (Inr i, w0)"
    then obtain wa where
       "catchP (tapP (getCriteriaValue p
                          [''name'' \<mapsto> v, ''customTargetingKeyId'' \<mapsto> Str kid])
                    (\<lambda>valueId. putAsync criteriaValueStore ?k valueId))
                 (\<lambda>e. thenP (consoleLog ''locally storing criteria value failed'')
                    (\<lambda>_. rejected e)) wa = (Inr i, w0)" by blast
    from catchP_log_Inr[OF this] have
      "tapP (getCriteriaValue p
                          [''name'' \<mapsto> v, ''customTargetingKeyId'' \<mapsto> Str kid])
                    (\<lambda>valueId. putAsync criteriaValueStore ?k valueId) wa = (Inr i, w0)" .
    from tapP_Inr[OF this] obtain wb y where
      "putAsync criteriaValueStore ?k i wb = (Inr y, w0)" by blast
    then show ?thesis by (rule putAsync_then_get)
  qed
  then have "entries (stores w0 criteriaValueStore) (kid @ '':'' @ jsString v) = Some i"
    by (auto simp: getAsync_def split: if_splits option.splits)
  then show ?thesis using ids by simp
qed


lemmas criteria_run = getCriteria_def lookupKeyInPair_def lookupValueInPair_def
  convertPairToObject_def lookupCriteriaKey_def lookupCriteriaValues_def
  getCriteriaKey_eq getCriteriaValue_eq found_def Let_def
  catchP_def tapP_def thenP_def resolved_def getAsync_def putAsync_def
  extractResults_def extractFirstId_def

text \<open>
  C9. Resolving the criteria \<^verbatim>\<open>{"hb_pb": "0.50"}\<close> on a platform where the key
  \<^verbatim>\<open>hb_pb\<close> is \<^verbatim>\<open>K1\<close> and the value \<^verbatim>\<open>0.50\<close> of the key \<^verbatim>\<open>K1\<close> is
  \<^verbatim>\<open>V1\<close>, with stores that do not know them yet, gives exactly one entry, with
  \<open>keyId\<close> \<^verbatim>\<open>K1\<close> and \<open>valueIds\<close> \<^verbatim>\<open>[V1]\<close>. The value is stored under the key
  \<^verbatim>\<open>K1:0.50\<close>; in general a resolved value is in the store of criteria values under
  the id of its key, a colon and its name.
\<close>

theorem getCriteria_scenario:
  assumes "a < length (objects w)"
    and "objects w ! a = Object False [(''hb_pb'', Str ''0.50'')]"
    and "respond p ''CustomTargetingService'' ''getCustomTargetingKeysByStatement''
           (makeQuery [''name'' \<mapsto> Str ''hb_pb''] CRITERIA_KEY_FIELDS) = found ''K1''"
    and "respond p ''CustomTargetingService'' ''getCustomTargetingValuesByStatement''
           (valueQuery [''name'' \<mapsto> Str ''0.50'', ''customTargetingKeyId'' \<mapsto> Str ''K1''])
           = found ''V1''"
    and "entries (stores w criteriaKeyStore) ''hb_pb'' = None"
    and "writable (stores w criteriaKeyStore)"
    and "entries (stores w criteriaValueStore) ''K1:0.50'' = None"
    and "writable (stores w criteriaValueStore)"
  shows "fst (getCriteria p (Ref a) w) = Inr [\<lparr>keyId = ''K1'', valueIds = [''V1'']\<rparr>]
     \<and> entries (stores (snd (getCriteria p (Ref a) w)) criteriaKeyStore) ''hb_pb'' = Some ''K1''
     \<and> entries (stores (snd (getCriteria p (Ref a) w)) criteriaValueStore) ''K1:0.50''
         = Some ''V1''
     \<and> (\<forall>v kid u ids u'. lookupCriteriaValues p v kid u = (Inr ids, u') \<longrightarrow>
           (\<exists>i. ids = [i]
              \<and> entries (stores u' criteriaValueStore) (kid @ '':'' @ jsString v) = Some i))"
proof -
  have "fst (getCriteria p (Ref a) w) = Inr [\<lparr>keyId = ''K1'', valueIds = [''V1'']\<rparr>]
     \<and> entries (stores (snd (getCriteria p (Ref a) w)) criteriaKeyStore) ''hb_pb'' = Some ''K1''
     \<and> entries (stores (snd (getCriteria p (Ref a) w)) criteriaValueStore) ''K1:0.50''
         = Some ''V1''"
    using assms by (simp add: criteria_run)
  then show ?thesis using lookupCriteriaValues_stored by blast
qed

theorem getCriteria_scenario_witness:
  "fst (getCriteria mockPlatform (Ref 9) (newWorld fullLineItem))
     = Inr [\<lparr>keyId = ''K1'', valueIds = [''V1'']\<rparr>]
   \<and> entries (stores (snd (getCriteria mockPlatform (Ref 9) (newWorld fullLineItem)))
        criteriaValueStore) ''K1:0.50'' = Some ''V1''"
proof -
  let ?w = "newWorld fullLineItem"
  have h: "9 < length (objects ?w)"
    "objects ?w ! 9 = Object False [(''hb_pb'', Str ''0.50'')]"
    "entries (stores ?w criteriaKeyStore) ''hb_pb'' = None"
    "writable (stores ?w criteriaKeyStore)"
    "entries (stores ?w criteriaValueStore) ''K1:0.50'' = None"
    "writable (stores ?w criteriaValueStore)"
    by (simp_all add: newWorld_def emptyStore_def fullLineItem_def lineItemHeap_def)
  have r: "respond mockPlatform ''CustomTargetingService'' ''getCustomTargetingKeysByStatement''
           (makeQuery [''name'' \<mapsto> Str ''hb_pb''] CRITERIA_KEY_FIELDS) = found ''K1''"
    "respond mockPlatform ''CustomTargetingService'' ''getCustomTargetingValuesByStatement''
           (valueQuery [''name'' \<mapsto> Str ''0.50'', ''customTargetingKeyId'' \<mapsto> Str ''K1''])
           = found ''V1''"
    by (simp_all add: CRITERIA_KEY_FIELDS_def valueQuery_def run)
  show ?thesis
    using getCriteria_scenario[OF h(1) h(2) r(1) r(2) h(3) h(4) h(5) h(6)] by blast
qed



section \<open>The heap during the preparation\<close>

lemma quietI: "(\<And>w r w'. f w = (r, w') \<Longrightarrow> objects w' = objects w) \<Longrightarrow> quiet f"
  by (simp add: quiet_def)

lemma quietD: "quiet f \<Longrightarrow> f w = (r, w') \<Longrightarrow> objects w' = objects w"
  by (simp add: quiet_def)

lemma quiet_thenP: "quiet p \<Longrightarrow> (\<And>x. quiet (f x)) \<Longrightarrow> quiet (thenP p f)"
  unfolding quiet_def thenP_def
  by (auto split: prod.splits sum.splits)

lemma quiet_catchP: "quiet p \<Longrightarrow> (\<And>e. quiet (h e)) \<Longrightarrow> quiet (catchP p h)"
  unfolding quiet_def catchP_def
  by (auto split: prod.splits sum.splits)

lemma quiet_tapP: "quiet p \<Longrightarrow> (\<And>x. quiet (f x)) \<Longrightarrow> quiet (tapP p f)"
  unfolding quiet_def tapP_def
  by (auto split: prod.splits sum.splits)

lemma quiet_mapP: "(\<And>x. quiet (f x)) \<Longrightarrow> quiet (mapP f xs)"
proof (induction xs)
  case Nil
  then show ?case by (simp add: quiet_def)
next
  case (Cons x xs)
  have qx: "quiet (f x)" and qr: "quiet (mapP f xs)" using Cons by simp_all
  show ?case
    unfolding quiet_def
  proof (intro allI impI)
    fix w r w'
    assume a: "mapP f (x # xs) w = (r, w')"
    obtain r1 w1 where s1: "f x w = (r1, w1)" by (cases "f x w")
    have o1: "objects w1 = objects w" using quietD[OF qx s1] .
    show "objects w' = objects w"
    proof (cases r1)
      case (Inl e)
      then show ?thesis using a s1 o1 by simp
    next
      case (Inr y)
      obtain r2 w2 where s2: "mapP f xs w1 = (r2, w2)" by (cases "mapP f xs w1")
      have "objects w2 = objects w1" using quietD[OF qr s2] .
      then show ?thesis using a s1 s2 o1 Inr by (cases r2) auto
    qed
  qed
qed

lemma quiet_basic:
  "quiet (resolved x)" "quiet (rejected e)" "quiet (settle s)" "quiet (consoleLog m)"
  "quiet (executeAPIFunction p service method q)" "quiet (getAsync st k)" "quiet (putAsync st k v)"
  by (auto simp: quiet_def resolved_def rejected_def settle_def consoleLog_def
      executeAPIFunction_def getAsync_def putAsync_def split: if_splits option.splits)

lemmas quiet_rules = quiet_thenP quiet_catchP quiet_tapP quiet_mapP quiet_basic

lemma quiet_getOrder: "quiet (getOrder p conditions)"
  unfolding getOrder_def Let_def by (intro quiet_rules)

lemma quiet_getAdUnit: "quiet (getAdUnit p conditions)"
  unfolding getAdUnit_def Let_def by (intro quiet_rules)

lemma quiet_lookupCriteriaKey: "quiet (lookupCriteriaKey p name)"
  unfolding lookupCriteriaKey_def getCriteriaKey_def by (intro quiet_rules)

lemma quiet_lookupCriteriaValues: "quiet (lookupCriteriaValues p v kid)"
  unfolding lookupCriteriaValues_def getCriteriaValue_def Let_def by (intro quiet_rules)

lemma quiet_getCriteria: "quiet (getCriteria p criteria)"
proof -
  have "quiet (thenP (thenP (mapP (lookupKeyInPair p) ps)
              (mapP (lookupValueInPair p)))
       (\<lambda>ps. resolved (map convertPairToObject ps)))" for ps
    unfolding lookupKeyInPair_def lookupValueInPair_def Let_def
    by (intro quiet_rules quiet_lookupCriteriaKey quiet_lookupCriteriaValues)
  then show ?thesis
    unfolding quiet_def getCriteria_def by blast
qed



lemma fresh_update:
  assumes "\<forall>kv \<in> set ps. fresh n (snd kv)" "fresh n x"
  shows "\<forall>kv \<in> set (AList.update k x ps). fresh n (snd kv)"
  using assms by (induction ps) auto

lemma fresh_delete:
  assumes "\<forall>kv \<in> set ps. fresh n (snd kv)"
  shows "\<forall>kv \<in> set (AList.delete k ps). fresh n (snd kv)"
  using assms by (induction ps) auto

lemma separate_append:
  assumes "separate n h" "\<forall>kv \<in> set (props obj). fresh n (snd kv)"
  shows "separate n (h @ [obj])"
  using assms by (auto simp: separate_def nth_append)

lemma separate_update:
  assumes "separate n h" "\<forall>kv \<in> set (props obj). fresh n (snd kv)"
  shows "separate n (h[a := obj])"
  unfolding separate_def
proof (intro allI impI)
  fix c
  assume c: "n \<le> c \<and> c < length (h[a := obj])"
  show "\<forall>kv \<in> set (props (h[a := obj] ! c)). fresh n (snd kv)"
  proof (cases "c = a")
    case True
    then show ?thesis using c assms(2) by simp
  next
    case False
    then show ?thesis using c assms(1) by (simp add: separate_def)
  qed
qed

lemma separate_props:
  "separate n h \<Longrightarrow> n \<le> a \<Longrightarrow> a < length h \<Longrightarrow> \<forall>kv \<in> set (props (h ! a)). fresh n (snd kv)"
  unfolding separate_def by blast

lemma take_update_beyond: "n \<le> a \<Longrightarrow> take n (h[a := x]) = take n h"
  by simp

lemma kept_refl: "kept H H"
  by (auto simp: kept_def separate_def)

lemma kept_append:
  "kept H h \<Longrightarrow> \<forall>kv \<in> set (props obj). fresh (length H) (snd kv) \<Longrightarrow> kept H (h @ [obj])"
  by (auto simp: kept_def separate_append)

lemma kept_update:
  "kept H h \<Longrightarrow> length H \<le> a \<Longrightarrow> \<forall>kv \<in> set (props obj). fresh (length H) (snd kv) \<Longrightarrow>
     kept H (h[a := obj])"
  by (auto simp: kept_def separate_update)

lemma kept_props:
  "kept H h \<Longrightarrow> length H \<le> a \<Longrightarrow> a < length h \<Longrightarrow>
     \<forall>kv \<in> set (props (h ! a)). fresh (length H) (snd kv)"
  unfolding kept_def using separate_props by blast


lemma clone_grows:
  "n0 \<le> length h \<longrightarrow> freshStack n0 stack \<longrightarrow> separate n0 h \<longrightarrow>
      (\<forall>r stack' h'. baseClone n v stack h = (r, stack', h') \<longrightarrow>
          grown n0 h stack' h' \<and> (\<forall>x. r = Inr x \<longrightarrow> fresh n0 x))"
  and "n0 \<le> length h \<longrightarrow> n0 \<le> b \<longrightarrow> b < length h \<longrightarrow> freshStack n0 stack \<longrightarrow> separate n0 h \<longrightarrow>
      (\<forall>r stack' h'. cloneProps n b ps stack h = (r, stack', h') \<longrightarrow>
          grown n0 h stack' h')"
proof (induction n v stack h and n b ps stack h rule: baseClone_cloneProps.induct)
  case (1 v stack h)
  then show ?case by (simp add: grown_def)
next
  case (2 n v stack h)
  show ?case
  proof (intro impI allI)
    fix r stack' h'
    assume N: "n0 \<le> length h" and fs: "freshStack n0 stack" and sep: "separate n0 h"
      and run: "baseClone (Suc n) v stack h = (r, stack', h')"
    show "grown n0 h stack' h' \<and> (\<forall>x. r = Inr x \<longrightarrow> fresh n0 x)"
    proof (cases v)
      case (Ref a)
      show ?thesis
      proof (cases "map_of stack a")
        case (Some b)
        then have "(a, b) \<in> set stack" by (rule map_of_SomeD)
        then have "n0 \<le> b" using fs by (auto simp: freshStack_def)
        then show ?thesis using run Ref Some N fs sep by (auto simp: grown_def)
      next
        case None
        show ?thesis
        proof (cases "a < length h")
          case False
          then show ?thesis using run Ref None N fs sep by (auto simp: grown_def)
        next
          case True
          let ?b = "length h"
          let ?h1 = "h @ [Object (isArray (h ! a)) []]"
          obtain r1 st1 h1 where c: "cloneProps n ?b (props (h ! a)) ((a, ?b) # stack) ?h1
                = (r1, st1, h1)" by (cases "cloneProps n ?b (props (h ! a)) ((a, ?b) # stack) ?h1")
          have p: "n0 \<le> length ?h1" "n0 \<le> ?b" "?b < length ?h1"
            "freshStack n0 ((a, ?b) # stack)" "separate n0 ?h1"
            using N fs sep by (auto simp: freshStack_def intro: separate_append)
          have "grown n0 ?h1 st1 h1"
            using "2.IH"[OF Ref None True refl] p c by blast
          then have g: "grown n0 h st1 h1" using N by (auto simp: grown_def)
          have "r = (case r1 of Inl e \<Rightarrow> Inl e | Inr _ \<Rightarrow> Inr (Ref ?b))" "stack' = st1" "h' = h1"
            using run Ref None True c by (auto simp: Let_def split: sum.splits)
          then show ?thesis using g N by (auto split: sum.splits)
        qed
      qed
    qed (use run N fs sep in \<open>auto simp: grown_def\<close>)
  qed
next
  case (3 n b stack h)
  then show ?case by (simp add: grown_def)
next
  case (4 n b kv ps stack h)
  show ?case
  proof (intro impI allI)
    fix r stack' h'
    assume N: "n0 \<le> length h" and b: "n0 \<le> b" "b < length h"
      and fs: "freshStack n0 stack" and sep: "separate n0 h"
      and run: "cloneProps n b (kv # ps) stack h = (r, stack', h')"
    obtain r1 st1 h1 where c: "baseClone n (snd kv) stack h = (r1, st1, h1)"
      by (cases "baseClone n (snd kv) stack h")
    have g1: "grown n0 h st1 h1" and f1: "\<forall>x. r1 = Inr x \<longrightarrow> fresh n0 x"
      using "4.IH"(1) N fs sep c by blast+
    show "grown n0 h stack' h'"
    proof (cases r1)
      case (Inl e)
      then show ?thesis using run c g1 by simp
    next
      case (Inr x)
      let ?h2 = "h1[b := Object (isArray (h1 ! b)) (AList.update (fst kv) x (props (h1 ! b)))]"
      have run2: "cloneProps n b ps st1 ?h2 = (r, stack', h')"
        using run c Inr by simp
      have b1: "b < length h1" using b g1 by (simp add: grown_def)
      have fx: "fresh n0 x" using f1 Inr by simp
      have "separate n0 h1" using g1 by (simp add: grown_def)
      then have "\<forall>kv \<in> set (props (h1 ! b)). fresh n0 (snd kv)"
        using b(1) b1 by (rule separate_props)
      then have "\<forall>kv' \<in> set (AList.update (fst kv) x (props (h1 ! b))). fresh n0 (snd kv')"
        using fx by (rule fresh_update)
      then have "\<forall>kv' \<in> set (props (Object (isArray (h1 ! b))
                   (AList.update (fst kv) x (props (h1 ! b))))). fresh n0 (snd kv')"
        by simp
      with \<open>separate n0 h1\<close> have s2: "separate n0 ?h2"
        by (rule separate_update)
      have p2: "n0 \<le> length ?h2" "b < length ?h2" "freshStack n0 st1"
        using N g1 b1 by (auto simp: grown_def)
      have "grown n0 ?h2 stack' h'"
        using "4.IH"(2)[OF c[symmetric] Inr refl] p2 b(1) s2 run2 by blast
      then show ?thesis using g1 b(1) by (auto simp: grown_def)
    qed
  qed
qed

lemma safeI:
  "(\<And>w r w'. kept H (objects w) \<Longrightarrow> f w = (r, w') \<Longrightarrow>
      kept H (objects w') \<and> (\<forall>x. r = Inr x \<longrightarrow> Q x)) \<Longrightarrow> safe H f Q"
  by (simp add: safe_def)

lemma safeD:
  "safe H f Q \<Longrightarrow> kept H (objects w) \<Longrightarrow> f w = (r, w') \<Longrightarrow>
     kept H (objects w') \<and> (\<forall>x. r = Inr x \<longrightarrow> Q x)"
  by (simp add: safe_def)

lemma safe_thenP:
  assumes "safe H p Q" and "\<And>x. Q x \<Longrightarrow> safe H (f x) R"
  shows "safe H (thenP p f) R"
proof (rule safeI)
  fix w r w'
  assume k: "kept H (objects w)" and run: "thenP p f w = (r, w')"
  obtain r1 w1 where s1: "p w = (r1, w1)" by (cases "p w")
  have k1: "kept H (objects w1)" and q1: "\<forall>x. r1 = Inr x \<longrightarrow> Q x"
    using safeD[OF assms(1) k s1] by simp_all
  show "kept H (objects w') \<and> (\<forall>x. r = Inr x \<longrightarrow> R x)"
  proof (cases r1)
    case (Inl e)
    then show ?thesis using run s1 k1 by (auto simp: thenP_def)
  next
    case (Inr x)
    then have "f x w1 = (r, w')" using run s1 by (simp add: thenP_def)
    then show ?thesis using safeD[OF assms(2) k1] q1 Inr by blast
  qed
qed

lemma safe_quiet: "quiet f \<Longrightarrow> safe H f (\<lambda>_. True)"
  by (auto simp: safe_def quiet_def)

lemma safe_resolved: "Q x \<Longrightarrow> safe H (resolved x) Q"
  by (simp add: safe_def resolved_def)

lemma safe_forEach:
  assumes "\<And>x. safe H (f x) (\<lambda>_. True)"
  shows "safe H (forEach xs f) (\<lambda>_. True)"
proof (induction xs)
  case Nil
  then show ?case by (simp add: safe_def)
next
  case (Cons x xs)
  show ?case
  proof (rule safeI)
    fix w r w'
    assume k: "kept H (objects w)" and run: "forEach (x # xs) f w = (r, w')"
    obtain r1 w1 where s1: "f x w = (r1, w1)" by (cases "f x w")
    have k1: "kept H (objects w1)" using safeD[OF assms k s1] by simp
    show "kept H (objects w') \<and> (\<forall>x. r = Inr x \<longrightarrow> True)"
    proof (cases r1)
      case (Inl e)
      then show ?thesis using run s1 k1 by simp
    next
      case (Inr y)
      then have "forEach xs f w1 = (r, w')" using run s1 by simp
      then show ?thesis using safeD[OF Cons.IH k1] by simp
    qed
  qed
qed

lemma safe_cloneDeep: "safe H (cloneDeep p v) (fresh (length H))"
proof (rule safeI)
  fix w r w'
  assume k: "kept H (objects w)" and run: "cloneDeep p v w = (r, w')"
  obtain st h where c: "baseClone (stackLimit p) v [] (objects w) = (r, st, h)"
    and w': "w' = w\<lparr>objects := h\<rparr>"
    using run by (auto simp: cloneDeep_def split: prod.splits)
  have "length H \<le> length (objects w)" "freshStack (length H) []" "separate (length H) (objects w)"
    using k by (simp_all add: kept_def freshStack_def)
  then have g: "grown (length H) (objects w) st h" and f: "\<forall>x. r = Inr x \<longrightarrow> fresh (length H) x"
    using clone_grows(1) c by blast+
  have "kept H h" using g k by (auto simp: grown_def kept_def)
  then show "kept H (objects w') \<and> (\<forall>x. r = Inr x \<longrightarrow> fresh (length H) x)"
    using f w' by simp
qed

lemma safe_readProp:
  assumes "fresh (length H) v"
  shows "safe H (readProp v k) (fresh (length H))"
proof (rule safeI)
  fix w r w'
  assume kp: "kept H (objects w)" and run: "readProp v k w = (r, w')"
  have w': "w' = w" and r: "r = getProp (objects w) v k" using run by (auto simp: readProp_def)
  have "fresh (length H) x" if x: "r = Inr x" for x
  proof (cases v)
    case (Ref a)
    then have a: "a < length (objects w)" "length H \<le> a"
      using x r assms by (auto simp: getProp_def split: if_splits)
    have fr: "\<forall>kv \<in> set (props (objects w ! a)). fresh (length H) (snd kv)"
      using kept_props[OF kp a(2) a(1)] .
    show ?thesis
    proof (cases "map_of (props (objects w ! a)) k")
      case None
      then show ?thesis using x r Ref a by (simp add: getProp_def)
    next
      case (Some y)
      then have "(k, y) \<in> set (props (objects w ! a))" by (rule map_of_SomeD)
      then have "fresh (length H) y" using fr by auto
      then show ?thesis using x r Ref a Some by (simp add: getProp_def)
    qed
  qed (use x r in \<open>auto simp: getProp_def\<close>)
  then show "kept H (objects w') \<and> (\<forall>x. r = Inr x \<longrightarrow> fresh (length H) x)"
    using kp w' by simp
qed

lemma safe_writeProp:
  assumes "fresh (length H) v" "fresh (length H) x"
  shows "safe H (writeProp v k x) (\<lambda>_. True)"
proof (rule safeI)
  fix w r w'
  assume kp: "kept H (objects w)" and run: "writeProp v k x w = (r, w')"
  show "kept H (objects w') \<and> (\<forall>x. r = Inr x \<longrightarrow> True)"
  proof (cases v)
    case (Ref a)
    show ?thesis
    proof (cases "a < length (objects w)")
      case True
      have a: "length H \<le> a" using assms(1) Ref by simp
      have "\<forall>kv \<in> set (AList.update k x (props (objects w ! a))). fresh (length H) (snd kv)"
        using kept_props[OF kp a True] assms(2) by (rule fresh_update)
      then have "kept H ((objects w)[a := Object (isArray (objects w ! a))
                    (AList.update k x (props (objects w ! a)))])"
        using kept_update[OF kp a] by simp
      then show ?thesis using run Ref True by (auto simp: writeProp_def setProp_def)
    next
      case False
      then show ?thesis using run Ref kp by (auto simp: writeProp_def setProp_def)
    qed
  qed (use run kp in \<open>auto simp: writeProp_def setProp_def\<close>)
qed

lemma safe_removeProp:
  assumes "fresh (length H) v"
  shows "safe H (removeProp v k) (\<lambda>_. True)"
proof (rule safeI)
  fix w r w'
  assume kp: "kept H (objects w)" and run: "removeProp v k w = (r, w')"
  show "kept H (objects w') \<and> (\<forall>x. r = Inr x \<longrightarrow> True)"
  proof (cases v)
    case (Ref a)
    show ?thesis
    proof (cases "a < length (objects w)")
      case True
      have a: "length H \<le> a" using assms(1) Ref by simp
      have "\<forall>kv \<in> set (AList.delete k (props (objects w ! a))). fresh (length H) (snd kv)"
        using kept_props[OF kp a True] by (rule fresh_delete)
      then have "kept H ((objects w)[a := Object (isArray (objects w ! a))
                    (AList.delete k (props (objects w ! a)))])"
        using kept_update[OF kp a] by simp
      then show ?thesis using run Ref True by (auto simp: removeProp_def deleteProp_def)
    next
      case False
      then show ?thesis using run Ref kp by (auto simp: removeProp_def deleteProp_def)
    qed
  qed (use run kp in \<open>auto simp: removeProp_def deleteProp_def\<close>)
qed

lemma safe_push:
  assumes "fresh (length H) v" "fresh (length H) x"
  shows "safe H (push v x) (\<lambda>_. True)"
proof (rule safeI)
  fix w r w'
  assume kp: "kept H (objects w)" and run: "push v x w = (r, w')"
  show "kept H (objects w') \<and> (\<forall>x. r = Inr x \<longrightarrow> True)"
  proof (cases v)
    case (Ref a)
    show ?thesis
    proof (cases "a < length (objects w) \<and> isArray (objects w ! a)")
      case True
      have a: "length H \<le> a" using assms(1) Ref by simp
      have "\<forall>kv \<in> set (props (objects w ! a) @ [(digits (length (props (objects w ! a))), x)]).
              fresh (length H) (snd kv)"
        using kept_props[OF kp a] True assms(2) by auto
      then have "kept H ((objects w)[a := Object True
                    (props (objects w ! a) @ [(digits (length (props (objects w ! a))), x)])])"
        using kept_update[OF kp a] by simp
      then show ?thesis using run Ref True by (auto simp: push_def pushElem_def)
    next
      case False
      then show ?thesis using run Ref kp by (auto simp: push_def pushElem_def)
    qed
  qed (use run kp in \<open>auto simp: push_def pushElem_def\<close>)
qed

lemma safe_newObject:
  assumes "\<forall>kv \<in> set ps. fresh (length H) (snd kv)"
  shows "safe H (newObject ps) (fresh (length H))"
proof (rule safeI)
  fix w r w'
  assume kp: "kept H (objects w)" and run: "newObject ps w = (r, w')"
  have "kept H (objects w @ [Object False ps])"
    using kept_append[OF kp] assms by simp
  moreover have "length H \<le> length (objects w)" using kp by (simp add: kept_def)
  ultimately show "kept H (objects w') \<and> (\<forall>x. r = Inr x \<longrightarrow> fresh (length H) x)"
    using run by (auto simp: newObject_def)
qed

lemma safe_newArray:
  assumes "\<forall>v \<in> set vs. fresh (length H) v"
  shows "safe H (newArray vs) (fresh (length H))"
proof (rule safeI)
  fix w r w'
  assume kp: "kept H (objects w)" and run: "newArray vs w = (r, w')"
  have "\<forall>kv \<in> set (zip (map digits [0..<length vs]) vs). fresh (length H) (snd kv)"
    using assms by (auto dest: set_zip_rightD)
  then have "kept H (objects w @ [Object True (zip (map digits [0..<length vs]) vs)])"
    using kept_append[OF kp] by simp
  moreover have "length H \<le> length (objects w)" using kp by (simp add: kept_def)
  ultimately show "kept H (objects w') \<and> (\<forall>x. r = Inr x \<longrightarrow> fresh (length H) x)"
    using run by (auto simp: newArray_def)
qed

lemmas safe_steps = safe_cloneDeep safe_readProp safe_writeProp safe_removeProp
  safe_push safe_newObject safe_newArray

lemma safe_replaceOrderName: "safe H (replaceOrderName p v) (fresh (length H))"
  unfolding replaceOrderName_def
  apply (rule safe_thenP, (rule safe_steps safe_quiet[OF quiet_getOrder]; (assumption | simp)))+
  apply (rule safe_resolved, assumption)
  done

lemma safe_replaceAdUnitName: "safe H (replaceAdUnitName p v) (fresh (length H))"
  unfolding replaceAdUnitName_def
  apply (rule safe_thenP, (rule safe_steps safe_quiet[OF quiet_getAdUnit]; (assumption | simp)))+
  apply (rule safe_resolved, assumption)
  done

lemma safe_pushCriterion:
  "fresh (length H) v \<Longrightarrow> safe H (pushCriterion v c) (\<lambda>_. True)"
  unfolding pushCriterion_def
  apply (rule safe_thenP, (rule safe_steps; (assumption | simp)))+
  apply (rule safe_push; assumption)
  done

lemma safe_addCriteria: "safe H (addCriteria p v) (fresh (length H))"
  unfolding addCriteria_def
  apply (rule safe_thenP,
      (rule safe_steps safe_quiet[OF quiet_getCriteria] safe_forEach[OF safe_pushCriterion];
        (assumption | simp)))+
  apply (rule safe_resolved, assumption)
  done

lemma safe_replaceStartDate: "safe H (replaceStartDate p v) (fresh (length H))"
  unfolding replaceStartDate_def Let_def
  apply (rule safe_thenP, (rule safe_steps; (assumption | simp split: option.splits)))+
  apply (rule safe_resolved, assumption)
  done

lemma safe_prepareLineItem: "safe H (prepareLineItem p v) (fresh (length H))"
  unfolding prepareLineItem_def
  apply (rule safe_thenP, rule safe_quiet[OF quiet_basic(4)])
  apply (rule safe_thenP)+
      apply (rule safe_resolved[of "\<lambda>_. True"], simp)
     apply (rule safe_replaceStartDate)
    apply (rule safe_replaceOrderName)
   apply (rule safe_replaceAdUnitName)
  apply (rule safe_addCriteria)
  done

lemma snapshot_kept:
  assumes "closedHeap H" "length H \<le> length h" "take (length H) h = H"
  shows "inside (length H) v \<Longrightarrow> snapshot n h v = snapshot n H v"
proof (induction n arbitrary: v)
  case 0
  then show ?case by simp
next
  case (Suc n)
  show ?case
  proof (cases v)
    case (Ref a)
    then have a: "a < length H" using Suc.prems by simp
    then have same: "h ! a = H ! a" using assms(3) by (metis nth_take)
    have "H ! a \<in> set H" using a by simp
    then have "\<forall>kv \<in> set (props (H ! a)). inside (length H) (snd kv)"
      using assms(1) by (simp add: closedHeap_def)
    then have "map (\<lambda>kv. (fst kv, snapshot n h (snd kv))) (props (H ! a))
             = map (\<lambda>kv. (fst kv, snapshot n H (snd kv))) (props (H ! a))"
      using Suc.IH by (intro map_cong) auto
    then show ?thesis using Ref a assms(2) same by simp
  qed simp_all
qed

lemma full_run:
  "fst (prepareLineItem mockPlatform (Ref 10) (newWorld fullLineItem)) = Inr (Ref 52)"
  by code_simp

lemma nameless_run:
  "fst (prepareLineItem mockPlatform (Ref 10) (newWorld namelessLineItem)) = Inl WriteError
   \<and> calls (snd (prepareLineItem mockPlatform (Ref 10) (newWorld namelessLineItem)))
       = [(''OrderService'', ''getOrdersByStatement'', Statement ''Where '')]
   \<and> console (snd (prepareLineItem mockPlatform (Ref 10) (newWorld namelessLineItem)))
       = [''prepareLineItem'', ''locally storing order failed'']"
  by code_simp

lemma closed_fullLineItem: "closedHeap fullLineItem"
  by (simp add: closedHeap_def fullLineItem_def lineItemHeap_def)

text \<open>
  C4. For every line item and each of \<^verbatim>\<open>prepareLineItem\<close>,
  \<^verbatim>\<open>replaceStartDate\<close>, \<^verbatim>\<open>replaceOrderName\<close>, \<^verbatim>\<open>replaceAdUnitName\<close> and
  \<^verbatim>\<open>addCriteria\<close>: whether the call succeeds or fails, every object that was in the
  heap before the call is in it afterwards, unchanged, so the caller's line item is
  deep-equal to what it was; and the value a successful call returns is fresh, with
  nothing reachable from it that existed before the call: it does not alias the input.
\<close>

theorem prepare_keeps_original:
  assumes "f \<in> {prepareLineItem p, replaceStartDate p, replaceOrderName p,
                 replaceAdUnitName p, addCriteria p}"
    and "f lineItem w = (r, w')"
  shows "length (objects w) \<le> length (objects w')
       \<and> take (length (objects w)) (objects w') = objects w
       \<and> (closedHeap (objects w) \<and> inside (length (objects w)) lineItem \<longrightarrow>
            (\<forall>n. snapshot n (objects w') lineItem = snapshot n (objects w) lineItem))
       \<and> (\<forall>x. r = Inr x \<longrightarrow>
            fresh (length (objects w)) x \<and> separate (length (objects w)) (objects w'))"
proof -
  have "safe (objects w) (f lineItem) (fresh (length (objects w)))"
    using assms(1) safe_prepareLineItem safe_replaceStartDate safe_replaceOrderName
      safe_replaceAdUnitName safe_addCriteria by auto
  from safeD[OF this kept_refl assms(2)]
  have k: "kept (objects w) (objects w')"
    and x: "\<forall>x. r = Inr x \<longrightarrow> fresh (length (objects w)) x" by simp_all
  have l: "length (objects w) \<le> length (objects w')"
    and t: "take (length (objects w)) (objects w') = objects w"
    and s: "separate (length (objects w)) (objects w')"
    using k by (simp_all add: kept_def)
  have "\<forall>n. snapshot n (objects w') lineItem = snapshot n (objects w) lineItem"
    if "closedHeap (objects w)" "inside (length (objects w)) lineItem"
    using snapshot_kept[OF that(1) l t that(2)] by simp
  then show ?thesis using l t s x by blast
qed

theorem prepare_keeps_original_witness:
  "(\<exists>w'. prepareLineItem mockPlatform (Ref 10) (newWorld fullLineItem) = (Inr (Ref 52), w')
        \<and> take 11 (objects w') = fullLineItem
        \<and> snapshot 5 (objects w') (Ref 10) = snapshot 5 fullLineItem (Ref 10)
        \<and> separate 11 (objects w'))
   \<and> (\<exists>w'. prepareLineItem mockPlatform (Ref 10) (newWorld namelessLineItem)
              = (Inl WriteError, w')
        \<and> take 11 (objects w') = namelessLineItem)"
proof -
  define f where "f = prepareLineItem mockPlatform"
  define wa where "wa = snd (f (Ref 10) (newWorld fullLineItem))"
  define wb where "wb = snd (f (Ref 10) (newWorld namelessLineItem))"
  have mem: "f \<in> {prepareLineItem mockPlatform, replaceStartDate mockPlatform,
                 replaceOrderName mockPlatform, replaceAdUnitName mockPlatform,
                 addCriteria mockPlatform}" by (simp add: f_def)
  have len: "length fullLineItem = 11" "length namelessLineItem = 11"
    by (simp_all add: fullLineItem_def namelessLineItem_def lineItemHeap_def)
  have obj: "objects (newWorld fullLineItem) = fullLineItem"
    "objects (newWorld namelessLineItem) = namelessLineItem"
    by (simp_all add: newWorld_def)
  have ins: "inside 11 (Ref 10)" by simp
  have a: "f (Ref 10) (newWorld fullLineItem) = (Inr (Ref 52), wa)"
    unfolding wa_def f_def by (rule prod_eqI) (simp_all add: full_run)
  have b: "f (Ref 10) (newWorld namelessLineItem) = (Inl WriteError, wb)"
    unfolding wb_def f_def by (rule prod_eqI) (simp_all add: nameless_run)
  note ta = prepare_keeps_original[OF mem a, unfolded obj len]
  note tb = prepare_keeps_original[OF mem b, unfolded obj len]
  have a1: "take 11 (objects wa) = fullLineItem" using ta by (rule conjunct2[THEN conjunct1])
  have "\<forall>n. snapshot n (objects wa) (Ref 10) = snapshot n fullLineItem (Ref 10)"
    using ta[THEN conjunct2, THEN conjunct2, THEN conjunct1] closed_fullLineItem ins by (rule mp[OF _ conjI])
  then have a2: "snapshot 5 (objects wa) (Ref 10) = snapshot 5 fullLineItem (Ref 10)" by (rule spec)
  have a3: "separate 11 (objects wa)"
    using ta[THEN conjunct2, THEN conjunct2, THEN conjunct2] by simp
  have b1: "take 11 (objects wb) = namelessLineItem" using tb by (rule conjunct2[THEN conjunct1])
  show ?thesis using a a1 a2 a3 b b1 unfolding f_def by blast
qed

section \<open>A line item without its order name\<close>


























end
